theory Spec2Isabelle
  imports Complex_Main "HOL-Library.Word"
begin

unbundle bit_operations_syntax

section \<open>The sculpt mesh filter (sculpt\_filter\_mesh.cc)\<close>

text \<open>
  The mesh filter operator of the sculpt editor: every vertex of every node of the
  spatial partition is displaced by one of eleven rules, under a paint mask, an
  automasking factor, an orientation frame and a per-axis mask.

  Conventions of the embedding.
  \<^item> A C \<open>float\<close> is a real number: rounding is not modelled. The one place where
    the source produces a value that is not a finite number (the reciprocal of a zero
    maximum in \<open>mesh_filter_sharpen_init\<close>) is modelled with \<open>real option\<close>, where
    \<open>None\<close> stands for an infinity or a NaN.
  \<^item> A vertex is its index; a node of the partition is the list of its unique vertices.
  \<^item> \<open>BLI_task_parallel_range\<close> is a fork-join over the nodes; the model runs the
    callback on the nodes in index order, one after the other.
  \<^item> Functions of the editor that this file calls and that are defined elsewhere are
    the fields of the record \<open>collab\<close>; the calls whose only effect lies outside
    this file are recorded in an event log.
\<close>

subsection \<open>Vector and matrix primitives\<close>

text \<open>
  The functions of the BLI math library that the filter calls. They are defined
  outside this file; each is given the arithmetic its name and its use state.
\<close>

type_synonym float3 = "real \<times> real \<times> real"

text \<open>A \<open>float[4][4]\<close> (also used for \<open>float[3][3]\<close>): \<open>M[i][j]\<close> is \<open>M ! i ! j\<close>.\<close>

type_synonym mat4 = "real list list"

fun add_v3_v3v3 :: "float3 \<Rightarrow> float3 \<Rightarrow> float3" where
  "add_v3_v3v3 (ax, ay, az) (bx, by, bz) = (ax + bx, ay + by, az + bz)"

fun sub_v3_v3v3 :: "float3 \<Rightarrow> float3 \<Rightarrow> float3" where
  "sub_v3_v3v3 (ax, ay, az) (bx, by, bz) = (ax - bx, ay - by, az - bz)"

fun mul_v3_v3fl :: "float3 \<Rightarrow> real \<Rightarrow> float3" where
  "mul_v3_v3fl (ax, ay, az) f = (ax * f, ay * f, az * f)"

text \<open>\<open>madd_v3_v3v3fl(r, a, b, f)\<close>: \<open>r = a + b * f\<close>.\<close>

fun madd_v3_v3v3fl :: "float3 \<Rightarrow> float3 \<Rightarrow> real \<Rightarrow> float3" where
  "madd_v3_v3v3fl (ax, ay, az) (bx, by, bz) f = (ax + bx * f, ay + by * f, az + bz * f)"

fun mid_v3_v3v3 :: "float3 \<Rightarrow> float3 \<Rightarrow> float3" where
  "mid_v3_v3v3 (ax, ay, az) (bx, by, bz) = (0.5 * (ax + bx), 0.5 * (ay + by), 0.5 * (az + bz))"

fun len_v3 :: "float3 \<Rightarrow> real" where
  "len_v3 (ax, ay, az) = sqrt (ax * ax + ay * ay + az * az)"

definition clamp_f :: "real \<Rightarrow> real \<Rightarrow> real \<Rightarrow> real" where
  "clamp_f v lo hi = (if v < lo then lo else if v > hi then hi else v)"

definition pow2f :: "real \<Rightarrow> real" where
  "pow2f x = x * x"

text \<open>\<open>mul_mat3_m4_v3\<close> and \<open>mul_m3_v3\<close>: the vector times the upper left 3x3 block.\<close>

fun mul_mat3_m4_v3 :: "mat4 \<Rightarrow> float3 \<Rightarrow> float3" where
  "mul_mat3_m4_v3 M (x, y, z) =
     (x * M ! 0 ! 0 + y * M ! 1 ! 0 + M ! 2 ! 0 * z,
      x * M ! 0 ! 1 + y * M ! 1 ! 1 + M ! 2 ! 1 * z,
      x * M ! 0 ! 2 + y * M ! 1 ! 2 + M ! 2 ! 2 * z)"

definition unit_m3 :: mat4 where
  "unit_m3 = [[1, 0, 0], [0, 1, 0], [0, 0, 1]]"

definition scale_m3_fl :: "mat4 \<Rightarrow> real \<Rightarrow> mat4" where
  "scale_m3_fl M f = map (map (\<lambda>x. x * f)) M"

definition mul_m3_v3 :: "mat4 \<Rightarrow> float3 \<Rightarrow> float3" where
  "mul_m3_v3 M v = mul_mat3_m4_v3 M v"

text \<open>
  The macro \<open>ELEM(v, a, b, ...)\<close> of BLI\_utildefines.h: \<open>v == a || v == b || ...\<close>.
\<close>

definition ELEM :: "'a \<Rightarrow> 'a list \<Rightarrow> bool" where
  "ELEM v xs = (v \<in> set xs)"

subsection \<open>Arithmetic that can leave the finite numbers\<close>

text \<open>
  \<open>a / b\<close> on floats: a zero divisor gives an infinity or a NaN (\<open>None\<close>); every
  operation on a value that is not finite gives a value that is not finite.
\<close>

definition fdiv :: "real \<Rightarrow> real \<Rightarrow> real option" where
  "fdiv a b = (if b = 0 then None else Some (a / b))"

fun fmul :: "real option \<Rightarrow> real option \<Rightarrow> real option" where
  "fmul (Some a) (Some b) = Some (a * b)"
| "fmul _ _ = None"

fun fadd :: "real option \<Rightarrow> real option \<Rightarrow> real option" where
  "fadd (Some a) (Some b) = Some (a + b)"
| "fadd _ _ = None"

fun fsub :: "real option \<Rightarrow> real option \<Rightarrow> real option" where
  "fsub (Some a) (Some b) = Some (a - b)"
| "fsub _ _ = None"

subsection \<open>Enumerations\<close>

datatype eSculptMeshFilterType =
    MESH_FILTER_SMOOTH
  | MESH_FILTER_SCALE
  | MESH_FILTER_INFLATE
  | MESH_FILTER_SPHERE
  | MESH_FILTER_RANDOM
  | MESH_FILTER_RELAX
  | MESH_FILTER_RELAX_FACE_SETS
  | MESH_FILTER_SURFACE_SMOOTH
  | MESH_FILTER_SHARPEN
  | MESH_FILTER_ENHANCE_DETAILS
  | MESH_FILTER_ERASE_DISPLACEMENT

datatype SculptFilterOrientation =
    SCULPT_FILTER_ORIENTATION_LOCAL
  | SCULPT_FILTER_ORIENTATION_WORLD
  | SCULPT_FILTER_ORIENTATION_VIEW

text \<open>The flags of \<open>eSculptBoundary\<close>; a boundary type is the list of the flags set.\<close>

datatype eSculptBoundary = SCULPT_BOUNDARY_MESH | SCULPT_BOUNDARY_FACE_SET

datatype operator_return = OPERATOR_CANCELLED | OPERATOR_PASS_THROUGH

text \<open>
  What the model cannot continue from: a dereferenced null pointer, and a vertex
  position that is not a finite number.
\<close>

datatype error = NullPointer | NonFinite

text \<open>Calls into the rest of the editor, in the order they are made.\<close>

datatype event =
    EvUpdateObjectForEdit bool
  | EvStrokeIdNext
  | EvCursorGeometryInfoUpdate
  | EvVertexRandomAccessEnsure
  | EvBoundaryInfoEnsure
  | EvUndoPushBegin
  | EvUndoPushEnd
  | EvNodeMarkNormalsUpdate "nat list"
  | EvNodeMarkUpdate "nat list"
  | EvPbvhUpdateNormals
  | EvPbvhUpdateBounds
  | EvSurfaceSmoothLaplacianInit
  | EvFlushStrokeDeform
  | EvFlushUpdateStep
  | EvFlushUpdateDone

subsection \<open>The filter cache, the session and the operator\<close>

record FilterCache =
  nodes :: "nat list list"
  enabled_axis :: "bool \<times> bool \<times> bool"
  orientation :: SculptFilterOrientation
  obmat :: mat4
  obmat_inv :: mat4
  viewmat :: mat4
  viewmat_inv :: mat4
  iteration_count :: int
  start_filter_strength :: real
  random_seed :: int
  sharpen_factor :: "real option list"
  detail_directions :: "float3 list"
  limit_surface_co :: "float3 list"
  sharpen_smooth_ratio :: real
  sharpen_intensify_detail_strength :: real
  sharpen_curvature_smooth_iterations :: int
  surface_smooth_shape_preservation :: real
  surface_smooth_current_vertex :: real
  automasking :: "(nat \<Rightarrow> real) option"
  active_face_set :: int
  no_orig_co :: bool
  preserve_fset_boundaries :: bool

text \<open>
  The object with its sculpt session: the live vertex positions and normals, the paint
  mask layer (absent when the mesh has none), the leaf nodes of the partition (and
  whether it is a multiresolution grid), the
  snapshot kept by the undo system (original position and normal of every vertex of a
  pushed node), the filter cache, the Laplacian buffer of the surface smooth filter,
  the object and view matrices, and the log of external calls.
\<close>

record sculpt_state =
  vert_co :: "float3 list"
  vert_no :: "float3 list"
  vert_mask :: "real list option"
  pbvh :: "nat list list option"
  pbvh_type_grids :: bool
  undo :: "nat \<rightharpoonup> float3 \<times> float3"
  filter_cache :: "FilterCache option"
  laplacian_disp :: "nat \<rightharpoonup> float3"
  object_to_world :: mat4
  rv3d_viewmat :: mat4
  rv3d_viewinv :: mat4
  deform_modifiers_active :: bool
  shapekey_active :: bool
  events :: "event list"

text \<open>The properties of the operator, read with \<open>RNA_*_get(op->ptr, ...)\<close>.\<close>

record wmOperator =
  rna_type :: eSculptMeshFilterType
  rna_strength :: real
  rna_deform_axis :: int
  rna_orientation :: SculptFilterOrientation
  rna_surface_smooth_shape_preservation :: real
  rna_surface_smooth_current_vertex :: real
  rna_sharpen_smooth_ratio :: real
  rna_sharpen_intensify_detail_strength :: real
  rna_sharpen_curvature_smooth_iterations :: int

text \<open>
  The functions this file calls and does not define. The ones that read the mesh take
  the live positions as their first argument.
  \<^item> \<open>neighbors\<close>: the vertices \<open>SCULPT_VERTEX_NEIGHBORS_ITER\<close> visits;
  \<^item> \<open>surface_smooth_laplacian_step\<close> gives the displacement it writes to \<open>disp\<close>
    and the Laplacian estimate it stores for the vertex;
  \<^item> \<open>surface_smooth_displace_step\<close> gives the position it leaves in \<open>co\<close>;
  \<^item> \<open>float_as_uint\<close> is the bit pattern read by \<open>(const uint *)orig_co\<close>;
  \<^item> \<open>search_sphere_cb\<close> is the test of the node search at the start of a filter;
  \<^item> \<open>automasking_cache_init\<close> is the handle of the masking subsystem: the factor
    of every vertex, or null when automasking is off.
\<close>

record collab =
  neighbors :: "nat \<Rightarrow> nat list"
  neighbor_coords_average_interior :: "float3 list \<Rightarrow> nat \<Rightarrow> real \<Rightarrow> real \<Rightarrow> float3"
  neighbor_coords_average :: "float3 list \<Rightarrow> nat \<Rightarrow> real \<Rightarrow> real \<Rightarrow> bool \<Rightarrow> float3"
  get_fset_projection :: "real \<Rightarrow> real"
  relax_vertex :: "float3 list \<Rightarrow> nat \<Rightarrow> real \<Rightarrow> eSculptBoundary list \<Rightarrow> float3"
  surface_smooth_laplacian_step ::
    "float3 list \<Rightarrow> float3 \<Rightarrow> nat \<Rightarrow> float3 \<Rightarrow> real \<Rightarrow> float3 \<times> float3"
  surface_smooth_displace_step ::
    "(nat \<rightharpoonup> float3) \<Rightarrow> float3 \<Rightarrow> nat \<Rightarrow> real \<Rightarrow> real \<Rightarrow> float3"
  vertex_has_unique_face_set :: "nat \<Rightarrow> bool"
  vertex_limit_surface_get :: "nat \<Rightarrow> float3"
  normalize_v3_v3 :: "float3 \<Rightarrow> float3"
  float_as_uint :: "real \<Rightarrow> 32 word"
  hash_int_2d :: "32 word \<Rightarrow> 32 word \<Rightarrow> 32 word"
  search_sphere_cb :: "nat list \<Rightarrow> bool"
  rand :: int
  invert_m4_m4 :: "mat4 \<Rightarrow> mat4"
  is_automasking_enabled :: bool
  automasking_cache_init :: "(nat \<Rightarrow> real) option"

definition log_event :: "event \<Rightarrow> sculpt_state \<Rightarrow> sculpt_state" where
  "log_event e ss = ss\<lparr>events := events ss @ [e]\<rparr>"


text \<open>A loop whose body can fail stops at the first failure.\<close>

fun fold_err :: "('s \<Rightarrow> 'a \<Rightarrow> error + 's) \<Rightarrow> 'a list \<Rightarrow> 's \<Rightarrow> error + 's" where
  "fold_err f [] s = Inr s"
| "fold_err f (x # xs) s = (case f s x of Inl e \<Rightarrow> Inl e | Inr s' \<Rightarrow> fold_err f xs s')"

subsection \<open>The undo snapshot and the masking handle\<close>

text \<open>
  Modelled from the spec: the undo collaborator (\<open>SCULPT_undo_push_begin\<close>,
  \<open>SCULPT_undo_push_node\<close>, \<open>SCULPT_orig_vert_data_init\<close> and
  \<open>SCULPT_orig_vert_data_update\<close> are defined outside this file). Beginning an undo
  step opens an empty snapshot. Pushing a node stores the position and the normal of
  each of its vertices the first time the node is pushed, and keeps the stored values
  afterwards. The original data of a vertex is what the snapshot holds for it.
\<close>

definition SCULPT_undo_push_begin :: "sculpt_state \<Rightarrow> sculpt_state" where
  "SCULPT_undo_push_begin ss = log_event EvUndoPushBegin (ss\<lparr>undo := Map.empty\<rparr>)"

definition SCULPT_undo_push_node :: "sculpt_state \<Rightarrow> nat list \<Rightarrow> sculpt_state" where
  "SCULPT_undo_push_node ss node =
     ss\<lparr>undo := (\<lambda>v. if v \<in> set node
                      then (case undo ss v of
                              None \<Rightarrow> Some (vert_co ss ! v, vert_no ss ! v)
                            | Some p \<Rightarrow> Some p)
                      else undo ss v)\<rparr>"

definition SCULPT_orig_vert_data :: "sculpt_state \<Rightarrow> nat \<Rightarrow> float3 \<times> float3" where
  "SCULPT_orig_vert_data ss v =
     (case undo ss v of Some p \<Rightarrow> p | None \<Rightarrow> (vert_co ss ! v, vert_no ss ! v))"

text \<open>
  Modelled from the spec: \<open>SCULPT_automasking_factor_get\<close> is defined outside this
  file. It gives the factor of the vertex held by the handle; without a handle the
  masking subsystem leaves the fade as it is (factor 1).
\<close>

fun SCULPT_automasking_factor_get :: "(nat \<Rightarrow> real) option \<Rightarrow> nat \<Rightarrow> real" where
  "SCULPT_automasking_factor_get None v = 1"
| "SCULPT_automasking_factor_get (Some f) v = f v"

subsection \<open>Orientation frames and the axis mask\<close>

definition SCULPT_filter_to_orientation_space :: "FilterCache \<Rightarrow> float3 \<Rightarrow> float3" where
  "SCULPT_filter_to_orientation_space fc r_v =
     (case orientation fc of
        SCULPT_FILTER_ORIENTATION_LOCAL \<Rightarrow> r_v
      | SCULPT_FILTER_ORIENTATION_WORLD \<Rightarrow> mul_mat3_m4_v3 (obmat fc) r_v
      | SCULPT_FILTER_ORIENTATION_VIEW \<Rightarrow>
          mul_mat3_m4_v3 (viewmat fc) (mul_mat3_m4_v3 (obmat fc) r_v))"

definition SCULPT_filter_to_object_space :: "FilterCache \<Rightarrow> float3 \<Rightarrow> float3" where
  "SCULPT_filter_to_object_space fc r_v =
     (case orientation fc of
        SCULPT_FILTER_ORIENTATION_LOCAL \<Rightarrow> r_v
      | SCULPT_FILTER_ORIENTATION_WORLD \<Rightarrow> mul_mat3_m4_v3 (obmat_inv fc) r_v
      | SCULPT_FILTER_ORIENTATION_VIEW \<Rightarrow>
          mul_mat3_m4_v3 (obmat_inv fc) (mul_mat3_m4_v3 (viewmat_inv fc) r_v))"

text \<open>The loop \<open>for it in 0..2: if (!enabled_axis[it]) disp[it] = 0\<close>.\<close>

fun zero_disabled_axis :: "bool \<times> bool \<times> bool \<Rightarrow> float3 \<Rightarrow> float3" where
  "zero_disabled_axis (ex, ey, ez) (x, y, z) =
     (if \<not> ex then 0 else x, if \<not> ey then 0 else y, if \<not> ez then 0 else z)"

text \<open>Lines 544 to 550 of \<open>mesh_filter_task_cb\<close>.\<close>

definition filter_axis_displacement :: "FilterCache \<Rightarrow> float3 \<Rightarrow> float3" where
  "filter_axis_displacement fc disp =
     SCULPT_filter_to_object_space fc
       (zero_disabled_axis (enabled_axis fc) (SCULPT_filter_to_orientation_space fc disp))"

subsection \<open>The displacement of one vertex\<close>

definition vertex_fade :: "FilterCache \<Rightarrow> sculpt_state \<Rightarrow> real \<Rightarrow> nat \<Rightarrow> real" where
  "vertex_fade fc ss filter_strength v =
     (1 - (case vert_mask ss of None \<Rightarrow> 0 | Some m \<Rightarrow> m ! v)) * filter_strength *
     SCULPT_automasking_factor_get (automasking fc) v"

text \<open>
  The hash of the random filter: the bit patterns of the three coordinates of
  \<open>orig_co\<close> and the seed of the cache.
\<close>

fun random_hash :: "collab \<Rightarrow> FilterCache \<Rightarrow> float3 \<Rightarrow> 32 word" where
  "random_hash X fc (x, y, z) =
     hash_int_2d X (float_as_uint X x) (float_as_uint X y) XOR
     hash_int_2d X (float_as_uint X z) (word_of_int (random_seed fc))"

text \<open>
  The iteration mode of the relax face sets filter (line 376). The C remainder of a
  negative counter is negative or zero, and zero exactly when 3 divides the counter,
  as for \<open>mod\<close>.
\<close>

definition relax_face_sets_mode :: "FilterCache \<Rightarrow> bool" where
  "relax_face_sets_mode fc = (\<not> (iteration_count fc mod 3 = 0))"

text \<open>
  The sharpen rule reads the factor of the vertex and of each of its neighbours; when
  one of them is not a finite number, neither is the displacement.
\<close>

definition sharpen_displacement ::
  "collab \<Rightarrow> FilterCache \<Rightarrow> sculpt_state \<Rightarrow> nat \<Rightarrow> error + float3" where
  "sharpen_displacement X fc ss v =
     (let smooth_ratio = sharpen_smooth_ratio fc;
          ns = neighbors X v
      in case (sharpen_factor fc ! v, those (map (\<lambda>n. sharpen_factor fc ! n) ns)) of
           (Some factor_v, Some factor_ns) \<Rightarrow>
             (let disp_sharpen =
                    fold (\<lambda>(n, factor_n) acc.
                            add_v3_v3v3 acc
                              (mul_v3_v3fl (sub_v3_v3v3 (vert_co ss ! n) (vert_co ss ! v)) factor_n))
                         (zip ns factor_ns) (0, 0, 0);
                  disp_sharpen = mul_v3_v3fl disp_sharpen (1 - factor_v);
                  avg_co = neighbor_coords_average X (vert_co ss) v 0
                             (if preserve_fset_boundaries fc then 0 else 1) True;
                  disp_avg = sub_v3_v3v3 avg_co (vert_co ss ! v);
                  disp_avg = mul_v3_v3fl disp_avg (smooth_ratio * pow2f factor_v);
                  disp = add_v3_v3v3 disp_avg disp_sharpen
              in Inr (if sharpen_intensify_detail_strength fc > 0
                      then madd_v3_v3v3fl disp (detail_directions fc ! v)
                             (- sharpen_intensify_detail_strength fc * factor_v)
                      else disp))
         | _ \<Rightarrow> Inl NonFinite)"

text \<open>
  The \<open>switch (filter_type)\<close> of \<open>mesh_filter_task_cb\<close>: the displacement, the fade
  as the branch leaves it, and the Laplacian estimate the surface smooth branch stores.
\<close>

definition mesh_filter_displacement ::
  "collab \<Rightarrow> FilterCache \<Rightarrow> sculpt_state \<Rightarrow> eSculptMeshFilterType \<Rightarrow> real \<Rightarrow> nat \<Rightarrow>
   float3 \<Rightarrow> float3 \<times> float3 \<Rightarrow> error + (float3 \<times> real \<times> float3 option)" where
  "mesh_filter_displacement X fc ss filter_type fade v orig_co orig_data =
     (let vd_co = vert_co ss ! v;
          fset_projection = get_fset_projection X (if preserve_fset_boundaries fc then 1 else 0);
          projection = 0
      in case filter_type of
           MESH_FILTER_SMOOTH \<Rightarrow>
             (let fade = clamp_f fade (- 1) 1;
                  avg = neighbor_coords_average_interior X (vert_co ss) v projection fset_projection;
                  val = sub_v3_v3v3 avg orig_co;
                  val = madd_v3_v3v3fl orig_co val fade
              in Inr (sub_v3_v3v3 val orig_co, fade, None))
         | MESH_FILTER_INFLATE \<Rightarrow> Inr (mul_v3_v3fl (snd orig_data) fade, fade, None)
         | MESH_FILTER_SCALE \<Rightarrow>
             (let transform = scale_m3_fl unit_m3 (1 + fade);
                  val = mul_m3_v3 transform orig_co
              in Inr (sub_v3_v3v3 val orig_co, fade, None))
         | MESH_FILTER_SPHERE \<Rightarrow>
             (let disp = normalize_v3_v3 X orig_co;
                  disp = (if fade > 0 then mul_v3_v3fl disp fade else mul_v3_v3fl disp (- fade));
                  transform = (if fade > 0 then scale_m3_fl unit_m3 (1 - fade)
                               else scale_m3_fl unit_m3 (1 + fade));
                  val = mul_m3_v3 transform orig_co;
                  disp2 = sub_v3_v3v3 val orig_co
              in Inr (mid_v3_v3v3 disp disp2, fade, None))
         | MESH_FILTER_RANDOM \<Rightarrow>
             (let normal = snd orig_data;
                  hash = random_hash X fc orig_co;
                  normal = mul_v3_v3fl normal (real (unat hash) * (1 / 4294967295) - 0.5)
              in Inr (mul_v3_v3fl normal fade, fade, None))
         | MESH_FILTER_RELAX \<Rightarrow>
             (let val = relax_vertex X (vert_co ss) v (clamp_f fade 0 1) [SCULPT_BOUNDARY_MESH]
              in Inr (sub_v3_v3v3 val vd_co, fade, None))
         | MESH_FILTER_RELAX_FACE_SETS \<Rightarrow>
             (let boundtype = [SCULPT_BOUNDARY_MESH] @
                              (if relax_face_sets_mode fc then [SCULPT_BOUNDARY_FACE_SET] else []);
                  val = relax_vertex X (vert_co ss) v (clamp_f fade 0 1) boundtype
              in Inr (sub_v3_v3v3 val vd_co, fade, None))
         | MESH_FILTER_SURFACE_SMOOTH \<Rightarrow>
             (case surface_smooth_laplacian_step X (vert_co ss) vd_co v (fst orig_data) 1 of
                (disp, lap) \<Rightarrow> Inr (disp, fade, Some lap))
         | MESH_FILTER_SHARPEN \<Rightarrow>
             (case sharpen_displacement X fc ss v of
                Inl e \<Rightarrow> Inl e
              | Inr disp \<Rightarrow> Inr (disp, clamp_f fade 0 0.5, None))
         | MESH_FILTER_ENHANCE_DETAILS \<Rightarrow>
             Inr (mul_v3_v3fl (detail_directions fc ! v) (- \<bar>fade\<bar>), fade, None)
         | MESH_FILTER_ERASE_DISPLACEMENT \<Rightarrow>
             (let fade = clamp_f fade (- 1) 1;
                  disp = sub_v3_v3v3 (limit_surface_co fc ! v) orig_co
              in Inr (mul_v3_v3fl disp fade, fade, None)))"

text \<open>
  Lines 405 to 411: the position the rule starts from, the live position for the relax
  filters and once \<open>no_orig_co\<close> is set, the position of the snapshot otherwise.
\<close>

definition filter_orig_co ::
  "eSculptMeshFilterType \<Rightarrow> FilterCache \<Rightarrow> sculpt_state \<Rightarrow> nat \<Rightarrow> float3" where
  "filter_orig_co filter_type fc ss v =
     (if ELEM filter_type [MESH_FILTER_RELAX, MESH_FILTER_RELAX_FACE_SETS] \<or> no_orig_co fc
      then vert_co ss ! v else fst (SCULPT_orig_vert_data ss v))"

text \<open>
  The position the loop body of \<open>mesh_filter_task_cb\<close> writes for a vertex, or
  \<open>None\<close> when the body leaves the loop iteration with \<open>continue\<close>.
\<close>

definition mesh_filter_final_pos ::
  "collab \<Rightarrow> eSculptMeshFilterType \<Rightarrow> real \<Rightarrow> FilterCache \<Rightarrow> sculpt_state \<Rightarrow> nat \<Rightarrow>
   error + (float3 \<times> float3 option) option" where
  "mesh_filter_final_pos X filter_type filter_strength fc ss v =
     (let orig_data = SCULPT_orig_vert_data ss v;
          fade = vertex_fade fc ss filter_strength v
      in if fade = 0 \<and> filter_type \<noteq> MESH_FILTER_SURFACE_SMOOTH then Inr None
         else
           (let orig_co = filter_orig_co filter_type fc ss v
            in if filter_type = MESH_FILTER_RELAX_FACE_SETS \<and>
                  relax_face_sets_mode fc = vertex_has_unique_face_set X v
               then Inr None
               else
                 (case mesh_filter_displacement X fc ss filter_type fade v orig_co orig_data of
                    Inl e \<Rightarrow> Inl e
                  | Inr (disp, fade', lap) \<Rightarrow>
                      (let disp = filter_axis_displacement fc disp;
                           final_pos =
                             (if ELEM filter_type [MESH_FILTER_SURFACE_SMOOTH, MESH_FILTER_SHARPEN]
                              then madd_v3_v3v3fl (vert_co ss ! v) disp (clamp_f fade' 0 1)
                              else add_v3_v3v3 orig_co disp)
                       in Inr (Some (final_pos, lap))))))"

definition mesh_filter_vertex ::
  "collab \<Rightarrow> eSculptMeshFilterType \<Rightarrow> real \<Rightarrow> FilterCache \<Rightarrow> sculpt_state \<Rightarrow> nat \<Rightarrow>
   error + sculpt_state" where
  "mesh_filter_vertex X filter_type filter_strength fc ss v =
     (case mesh_filter_final_pos X filter_type filter_strength fc ss v of
        Inl e \<Rightarrow> Inl e
      | Inr None \<Rightarrow> Inr ss
      | Inr (Some (final_pos, lap)) \<Rightarrow>
          Inr (ss\<lparr>vert_co := (vert_co ss)[v := final_pos],
                  laplacian_disp := (case lap of
                                       None \<Rightarrow> laplacian_disp ss
                                     | Some l \<Rightarrow> (laplacian_disp ss)(v \<mapsto> l))\<rparr>))"

text \<open>
  \<open>mesh_filter_task_cb\<close> on one node: the original data of the node is looked up
  (which pushes the node if the snapshot does not hold it), the unique vertices of the
  node are visited in order, and the node is marked for update.
\<close>

definition mesh_filter_task_cb ::
  "collab \<Rightarrow> eSculptMeshFilterType \<Rightarrow> real \<Rightarrow> FilterCache \<Rightarrow> sculpt_state \<Rightarrow> nat list \<Rightarrow>
   error + sculpt_state" where
  "mesh_filter_task_cb X filter_type filter_strength fc ss node =
     (case fold_err (mesh_filter_vertex X filter_type filter_strength fc) node
             (SCULPT_undo_push_node ss node) of
        Inl e \<Rightarrow> Inl e
      | Inr ss' \<Rightarrow> Inr (log_event (EvNodeMarkUpdate node) ss'))"

definition surface_smooth_displace_vertex ::
  "collab \<Rightarrow> real \<Rightarrow> FilterCache \<Rightarrow> sculpt_state \<Rightarrow> nat \<Rightarrow> error + sculpt_state" where
  "surface_smooth_displace_vertex X filter_strength fc ss v =
     (let fade = vertex_fade fc ss filter_strength v
      in if fade = 0 then Inr ss
         else Inr (ss\<lparr>vert_co := (vert_co ss)
                        [v := surface_smooth_displace_step X (laplacian_disp ss) (vert_co ss ! v) v
                                (surface_smooth_current_vertex fc) (clamp_f fade 0 1)]\<rparr>))"

definition mesh_filter_surface_smooth_displace_task_cb ::
  "collab \<Rightarrow> real \<Rightarrow> FilterCache \<Rightarrow> sculpt_state \<Rightarrow> nat list \<Rightarrow> error + sculpt_state" where
  "mesh_filter_surface_smooth_displace_task_cb X filter_strength fc ss node =
     fold_err (surface_smooth_displace_vertex X filter_strength fc) node ss"

subsection \<open>One iteration\<close>

definition sculpt_mesh_filter_apply ::
  "collab \<Rightarrow> wmOperator \<Rightarrow> sculpt_state \<Rightarrow> error + sculpt_state" where
  "sculpt_mesh_filter_apply X op ss =
     (case filter_cache ss of
        None \<Rightarrow> Inl NullPointer
      | Some fc \<Rightarrow>
          (let filter_type = rna_type op;
               filter_strength = rna_strength op;
               ss0 = log_event EvVertexRandomAccessEnsure ss;
               ss0 = (if filter_type = MESH_FILTER_SURFACE_SMOOTH
                      then log_event EvSurfaceSmoothLaplacianInit ss0 else ss0)
           in case fold_err (mesh_filter_task_cb X filter_type filter_strength fc) (nodes fc) ss0 of
                Inl e \<Rightarrow> Inl e
              | Inr ss1 \<Rightarrow>
                  (case (if filter_type = MESH_FILTER_SURFACE_SMOOTH
                         then fold_err (mesh_filter_surface_smooth_displace_task_cb X filter_strength fc)
                                (nodes fc) ss1
                         else Inr ss1) of
                     Inl e \<Rightarrow> Inl e
                   | Inr ss2 \<Rightarrow>
                       (let ss3 = ss2\<lparr>filter_cache :=
                                        Some (fc\<lparr>iteration_count := iteration_count fc + 1\<rparr>)\<rparr>;
                            ss4 = (if deform_modifiers_active ss3 \<or> shapekey_active ss3
                                   then log_event EvFlushStrokeDeform ss3 else ss3);
                            ss5 = (if ELEM MESH_FILTER_RELAX [MESH_FILTER_RELAX_FACE_SETS]
                                   then log_event EvPbvhUpdateNormals ss4 else ss4)
                        in Inr (log_event EvFlushUpdateStep ss5)))))"

text \<open>A run of iterations, one operator setting for each.\<close>

fun sculpt_mesh_filter_apply_all ::
  "collab \<Rightarrow> wmOperator list \<Rightarrow> sculpt_state \<Rightarrow> error + sculpt_state" where
  "sculpt_mesh_filter_apply_all X [] ss = Inr ss"
| "sculpt_mesh_filter_apply_all X (op # ops) ss =
     (case sculpt_mesh_filter_apply X op ss of
        Inl e \<Rightarrow> Inl e
      | Inr ss' \<Rightarrow> sculpt_mesh_filter_apply_all X ops ss')"


subsection \<open>Building and releasing the cache\<close>

text \<open>\<open>MEM_cnew<FilterCache>\<close>: every field is zero.\<close>

definition filter_cache_zero :: FilterCache where
  "filter_cache_zero =
     \<lparr>nodes = [], enabled_axis = (False, False, False),
      orientation = SCULPT_FILTER_ORIENTATION_LOCAL,
      obmat = replicate 4 (replicate 4 0), obmat_inv = replicate 4 (replicate 4 0),
      viewmat = replicate 4 (replicate 4 0), viewmat_inv = replicate 4 (replicate 4 0),
      iteration_count = 0, start_filter_strength = 0, random_seed = 0,
      sharpen_factor = [], detail_directions = [], limit_surface_co = [],
      sharpen_smooth_ratio = 0, sharpen_intensify_detail_strength = 0,
      sharpen_curvature_smooth_iterations = 0,
      surface_smooth_shape_preservation = 0, surface_smooth_current_vertex = 0,
      automasking = None, active_face_set = 0, no_orig_co = False,
      preserve_fset_boundaries = False\<rparr>"

text \<open>
  \<open>SCULPT_filter_cache_init\<close>: the nodes are the leaves that pass the sphere search,
  each of them is pushed to the undo snapshot, and the frame matrices are copied. The
  rest of the function computes \<open>initial_normal\<close> and \<open>view_normal\<close> and the last
  stroke location, which no function of the mesh filter reads; it is left out.
\<close>

definition SCULPT_filter_cache_init ::
  "collab \<Rightarrow> sculpt_state \<Rightarrow> real \<Rightarrow> error + sculpt_state" where
  "SCULPT_filter_cache_init X ss start_strength =
     (case pbvh ss of
        None \<Rightarrow> Inl NullPointer
      | Some leaves \<Rightarrow>
          (let gathered = filter (search_sphere_cb X) leaves;
               ss1 = fold (\<lambda>node. log_event (EvNodeMarkNormalsUpdate node)) gathered ss;
               ss2 = (if \<not> pbvh_type_grids ss1 then log_event EvPbvhUpdateNormals ss1 else ss1);
               ss3 = fold (\<lambda>node s. SCULPT_undo_push_node s node) gathered ss2;
               fc = filter_cache_zero
                      \<lparr>start_filter_strength := start_strength,
                       random_seed := rand X,
                       nodes := gathered,
                       obmat := object_to_world ss3,
                       obmat_inv := invert_m4_m4 X (object_to_world ss3),
                       viewmat := rv3d_viewmat ss3,
                       viewmat_inv := rv3d_viewinv ss3\<rparr>
           in Inr (ss3\<lparr>filter_cache := Some fc\<rparr>)))"

definition SCULPT_filter_cache_free :: "sculpt_state \<Rightarrow> error + sculpt_state" where
  "SCULPT_filter_cache_free ss =
     (case filter_cache ss of
        None \<Rightarrow> Inl NullPointer
      | Some fc \<Rightarrow> Inr (ss\<lparr>filter_cache := None\<rparr>))"

definition sculpt_mesh_filter_needs_pmap :: "eSculptMeshFilterType \<Rightarrow> bool" where
  "sculpt_mesh_filter_needs_pmap filter_type =
     ELEM filter_type [MESH_FILTER_SMOOTH, MESH_FILTER_RELAX, MESH_FILTER_RELAX_FACE_SETS,
                       MESH_FILTER_SURFACE_SMOOTH, MESH_FILTER_ENHANCE_DETAILS,
                       MESH_FILTER_SHARPEN]"

definition sculpt_mesh_filter_is_continuous :: "eSculptMeshFilterType \<Rightarrow> bool" where
  "sculpt_mesh_filter_is_continuous filter_type =
     ELEM filter_type [MESH_FILTER_SHARPEN, MESH_FILTER_SMOOTH, MESH_FILTER_RELAX,
                       MESH_FILTER_RELAX_FACE_SETS]"

subsection \<open>The auxiliary buffers\<close>

definition detail_direction :: "collab \<Rightarrow> sculpt_state \<Rightarrow> nat \<Rightarrow> float3" where
  "detail_direction X ss i =
     sub_v3_v3v3 (neighbor_coords_average X (vert_co ss) i 0 1 True) (vert_co ss ! i)"

definition mesh_filter_enhance_details_init_directions ::
  "collab \<Rightarrow> sculpt_state \<Rightarrow> FilterCache \<Rightarrow> FilterCache" where
  "mesh_filter_enhance_details_init_directions X ss fc =
     fc\<lparr>detail_directions := map (detail_direction X ss) [0..<length (vert_co ss)]\<rparr>"

definition mesh_filter_surface_smooth_init :: "FilterCache \<Rightarrow> real \<Rightarrow> real \<Rightarrow> FilterCache" where
  "mesh_filter_surface_smooth_init fc shape_preservation current_vertex_displacement =
     fc\<lparr>surface_smooth_shape_preservation := shape_preservation,
        surface_smooth_current_vertex := current_vertex_displacement\<rparr>"

definition mesh_filter_init_limit_surface_co ::
  "collab \<Rightarrow> sculpt_state \<Rightarrow> FilterCache \<Rightarrow> FilterCache" where
  "mesh_filter_init_limit_surface_co X ss fc =
     fc\<lparr>limit_surface_co := map (vertex_limit_surface_get X) [0..<length (vert_co ss)]\<rparr>"

text \<open>The loop of lines 634 to 639: the largest factor, starting from 0.\<close>

definition sharpen_max_factor :: "real list \<Rightarrow> real" where
  "sharpen_max_factor factors = fold (\<lambda>f max_factor. if f > max_factor then f else max_factor) factors 0"

text \<open>
  Lines 641 to 645: \<open>max_factor = 1.0f / max_factor\<close>, then every factor is
  multiplied by it and remapped. The reciprocal of 0 is not a finite number.
\<close>

definition sharpen_normalize :: "real list \<Rightarrow> real option list" where
  "sharpen_normalize factors =
     (let max_factor = fdiv 1 (sharpen_max_factor factors)
      in map (\<lambda>f. (let f' = fmul (Some f) max_factor
                   in fsub (Some 1) (fmul (fsub (Some 1) f') (fsub (Some 1) f')))) factors)"

text \<open>
  The body of the smoothing loop for the vertex \<open>i\<close> (lines 652 to 669): the
  directions and factors of the neighbours are averaged in place.
\<close>

definition sharpen_smooth_vertex ::
  "collab \<Rightarrow> nat \<Rightarrow> float3 list \<times> real option list \<Rightarrow> float3 list \<times> real option list" where
  "sharpen_smooth_vertex X i st =
     (case st of (directions, factors) \<Rightarrow>
        (let ns = neighbors X i;
             direction_avg = fold (\<lambda>n acc. add_v3_v3v3 acc (directions ! n)) ns (0, 0, 0);
             sharpen_avg = fold (\<lambda>n acc. fadd acc (factors ! n)) ns (Some 0);
             total = length ns
         in if total > 0
            then (directions[i := mul_v3_v3fl direction_avg (1 / real total)],
                  factors[i := map_option (\<lambda>a. a / real total) sharpen_avg])
            else (directions, factors)))"

definition sharpen_smooth_pass ::
  "collab \<Rightarrow> nat \<Rightarrow> float3 list \<times> real option list \<Rightarrow> float3 list \<times> real option list" where
  "sharpen_smooth_pass X totvert st = fold (sharpen_smooth_vertex X) [0..<totvert] st"

definition mesh_filter_sharpen_init ::
  "collab \<Rightarrow> sculpt_state \<Rightarrow> FilterCache \<Rightarrow> real \<Rightarrow> real \<Rightarrow> int \<Rightarrow> FilterCache" where
  "mesh_filter_sharpen_init X ss fc smooth_ratio intensify_detail_strength
       curvature_smooth_iterations =
     (let totvert = length (vert_co ss);
          directions = map (detail_direction X ss) [0..<totvert];
          factors = sharpen_normalize (map len_v3 directions);
          smoothed = ((sharpen_smooth_pass X totvert) ^^ nat curvature_smooth_iterations)
                       (directions, factors)
      in fc\<lparr>sharpen_smooth_ratio := smooth_ratio,
            sharpen_intensify_detail_strength := intensify_detail_strength,
            sharpen_curvature_smooth_iterations := curvature_smooth_iterations,
            sharpen_factor := snd smoothed,
            detail_directions := fst smoothed\<rparr>)"

subsection \<open>Start, end and cancel\<close>

text \<open>
  Lines 923 to 939 of \<open>sculpt_mesh_filter_start\<close>: the calls between the test of the
  axis mask and the construction of the cache, ending with the begin of the undo step.
\<close>

definition start_prepare :: "collab \<Rightarrow> bool \<Rightarrow> sculpt_state \<Rightarrow> sculpt_state" where
  "start_prepare X needs_topology_info ss1 =
     (let ss2 = (if is_automasking_enabled X
                 then log_event EvCursorGeometryInfoUpdate (log_event EvStrokeIdNext ss1)
                 else ss1);
          ss3 = log_event EvVertexRandomAccessEnsure ss2;
          ss4 = (if needs_topology_info then log_event EvBoundaryInfoEnsure ss3 else ss3)
      in SCULPT_undo_push_begin ss4)"

text \<open>
  Lines 949 to 989: the face set and the masking handle, the auxiliary buffers of the
  filter type, the axis mask and the orientation.
\<close>

definition start_configure_cache ::
  "collab \<Rightarrow> wmOperator \<Rightarrow> sculpt_state \<Rightarrow> FilterCache \<Rightarrow> FilterCache" where
  "start_configure_cache X op ss6 fc0 =
     (let deform_axis = rna_deform_axis op;
          fc1 = fc0\<lparr>active_face_set := 0, automasking := automasking_cache_init X\<rparr>;
          fc2 = (case rna_type op of
                   MESH_FILTER_SURFACE_SMOOTH \<Rightarrow>
                     mesh_filter_surface_smooth_init fc1
                       (rna_surface_smooth_shape_preservation op)
                       (rna_surface_smooth_current_vertex op)
                 | MESH_FILTER_SHARPEN \<Rightarrow>
                     mesh_filter_sharpen_init X ss6 fc1
                       (rna_sharpen_smooth_ratio op)
                       (rna_sharpen_intensify_detail_strength op)
                       (rna_sharpen_curvature_smooth_iterations op)
                 | MESH_FILTER_ENHANCE_DETAILS \<Rightarrow>
                     mesh_filter_enhance_details_init_directions X ss6 fc1
                 | MESH_FILTER_ERASE_DISPLACEMENT \<Rightarrow>
                     mesh_filter_init_limit_surface_co X ss6 fc1
                 | _ \<Rightarrow> fc1)
      in fc2\<lparr>enabled_axis := (deform_axis AND 1 \<noteq> 0,
                                deform_axis AND 2 \<noteq> 0,
                                deform_axis AND 4 \<noteq> 0),
             orientation := rna_orientation op\<rparr>)"

definition sculpt_mesh_filter_start ::
  "collab \<Rightarrow> wmOperator \<Rightarrow> sculpt_state \<Rightarrow> error + (operator_return \<times> sculpt_state)" where
  "sculpt_mesh_filter_start X op ss =
     (let filter_type = rna_type op;
          use_automasking = is_automasking_enabled X;
          needs_topology_info = (sculpt_mesh_filter_needs_pmap filter_type \<or> use_automasking);
          ss1 = log_event (EvUpdateObjectForEdit needs_topology_info) ss;
          deform_axis = rna_deform_axis op
      in if deform_axis = 0 then Inr (OPERATOR_CANCELLED, ss1)
         else
           (case SCULPT_filter_cache_init X (start_prepare X needs_topology_info ss1)
                   (rna_strength op) of
              Inl e \<Rightarrow> Inl e
            | Inr ss6 \<Rightarrow>
                (case filter_cache ss6 of
                   None \<Rightarrow> Inl NullPointer
                 | Some fc0 \<Rightarrow>
                     Inr (OPERATOR_PASS_THROUGH,
                          ss6\<lparr>filter_cache := Some (start_configure_cache X op ss6 fc0)\<rparr>))))"

definition sculpt_mesh_filter_end :: "sculpt_state \<Rightarrow> error + sculpt_state" where
  "sculpt_mesh_filter_end ss =
     (case SCULPT_filter_cache_free ss of
        Inl e \<Rightarrow> Inl e
      | Inr ss' \<Rightarrow> Inr (log_event EvFlushUpdateDone (log_event EvUndoPushEnd ss')))"

text \<open>
  \<open>sculpt_mesh_filter_cancel\<close>: without a partition the function returns at once.
  Otherwise every leaf of the partition is visited, and every vertex gets the position
  the snapshot holds for it.
\<close>

definition cancel_restore_vertex :: "nat \<Rightarrow> sculpt_state \<Rightarrow> sculpt_state" where
  "cancel_restore_vertex v ss = ss\<lparr>vert_co := (vert_co ss)[v := fst (SCULPT_orig_vert_data ss v)]\<rparr>"

definition cancel_restore_node :: "nat list \<Rightarrow> sculpt_state \<Rightarrow> sculpt_state" where
  "cancel_restore_node node ss =
     log_event (EvNodeMarkUpdate node)
       (fold cancel_restore_vertex node (SCULPT_undo_push_node ss node))"

definition sculpt_mesh_filter_cancel :: "sculpt_state \<Rightarrow> sculpt_state" where
  "sculpt_mesh_filter_cancel ss =
     (case pbvh ss of
        None \<Rightarrow> ss
      | Some leaves \<Rightarrow> log_event EvPbvhUpdateBounds (fold cancel_restore_node leaves ss))"


subsection \<open>Reference collaborators and a small mesh\<close>

text \<open>
  Modelled from the spec: \<open>SCULPT_neighbor_coords_average\<close> is defined outside this
  file. The spec calls it \<open>neighbor_average\<close>: the mean of the positions of the
  neighbours of the vertex (the position of the vertex itself when it has none).
\<close>

definition ref_neighbor_average :: "(nat \<Rightarrow> nat list) \<Rightarrow> float3 list \<Rightarrow> nat \<Rightarrow> float3" where
  "ref_neighbor_average nbrs co v =
     (let ns = nbrs v
      in if ns = [] then co ! v
         else mul_v3_v3fl (fold (\<lambda>n acc. add_v3_v3v3 acc (co ! n)) ns (0, 0, 0))
                (1 / real (length ns)))"

text \<open>
  Modelled from the spec: \<open>SCULPT_surface_smooth_laplacian_step\<close> is defined outside
  this file. Pass 1 computes the Laplacian step of a vertex from \<open>orig_co\<close>: the
  displacement leads from the live position to the neighbour average, and the stored
  estimate is the neighbour average minus the blend of the original and the live
  position with weight \<open>alpha\<close>.
\<close>

definition ref_laplacian_step ::
  "(nat \<Rightarrow> nat list) \<Rightarrow> float3 list \<Rightarrow> float3 \<Rightarrow> nat \<Rightarrow> float3 \<Rightarrow> real \<Rightarrow> float3 \<times> float3" where
  "ref_laplacian_step nbrs co vd_co v origco alpha =
     (let laplacian_smooth_co = ref_neighbor_average nbrs co v;
          d = add_v3_v3v3 (mul_v3_v3fl origco alpha) (mul_v3_v3fl vd_co (1 - alpha))
      in (sub_v3_v3v3 laplacian_smooth_co vd_co, sub_v3_v3v3 laplacian_smooth_co d))"

text \<open>
  Modelled from the spec: \<open>SCULPT_surface_smooth_displace_step\<close> is defined outside
  this file. Pass 2 reads the Laplacian estimates of the neighbours and displaces the
  vertex by a blend, configured by \<open>beta\<close>, of their mean and of the estimate of the
  vertex itself, scaled by the fade. An estimate that was never stored reads as zero.
\<close>

definition ref_displace_step ::
  "(nat \<Rightarrow> nat list) \<Rightarrow> (nat \<rightharpoonup> float3) \<Rightarrow> float3 \<Rightarrow> nat \<Rightarrow> real \<Rightarrow> real \<Rightarrow> float3" where
  "ref_displace_step nbrs lap co v beta fade =
     (let ns = nbrs v;
          rd = (\<lambda>n. case lap n of Some l \<Rightarrow> l | None \<Rightarrow> (0, 0, 0));
          b_avg = fold (\<lambda>n acc. add_v3_v3v3 acc (rd n)) ns (0, 0, 0);
          total = length ns
      in if total > 0
         then (let b = mul_v3_v3fl b_avg ((1 - beta) / real total);
                   b = madd_v3_v3v3fl b (rd v) beta;
                   b = mul_v3_v3fl b (clamp_f fade 0 1)
               in sub_v3_v3v3 co b)
         else co)"

text \<open>Three vertices on a line: 0 -- 1 -- 2.\<close>

definition path3_neighbors :: "nat \<Rightarrow> nat list" where
  "path3_neighbors v = (if v = 0 then [1] else if v = 1 then [0, 2] else if v = 2 then [1] else [])"

text \<open>
  Collaborators for running the model on the three vertices. The relax rule moves a
  vertex towards its neighbour average, the matrix inverse is that of a diagonal
  matrix, and the bit pattern and the hash are stand-ins.
\<close>

definition ref_collab :: collab where
  "ref_collab =
     \<lparr>neighbors = path3_neighbors,
      neighbor_coords_average_interior = (\<lambda>co v projection fset_projection.
         ref_neighbor_average path3_neighbors co v),
      neighbor_coords_average = (\<lambda>co v projection fset_projection check_mask.
         ref_neighbor_average path3_neighbors co v),
      get_fset_projection = (\<lambda>x. x),
      relax_vertex = (\<lambda>co v factor boundtype.
         madd_v3_v3v3fl (co ! v) (sub_v3_v3v3 (ref_neighbor_average path3_neighbors co v) (co ! v)) factor),
      surface_smooth_laplacian_step = ref_laplacian_step path3_neighbors,
      surface_smooth_displace_step = ref_displace_step path3_neighbors,
      vertex_has_unique_face_set = (\<lambda>v. v = 0),
      vertex_limit_surface_get = (\<lambda>v. (0, 0, 0)),
      normalize_v3_v3 = (\<lambda>v. if len_v3 v = 0 then (0, 0, 0) else mul_v3_v3fl v (1 / len_v3 v)),
      float_as_uint = (\<lambda>x. word_of_int \<lfloor>x\<rfloor>),
      hash_int_2d = (\<lambda>kx ky. kx * 31 + ky),
      search_sphere_cb = (\<lambda>node. True),
      rand = 7,
      invert_m4_m4 = map (map (\<lambda>x. if x = 0 then 0 else 1 / x)),
      is_automasking_enabled = False,
      automasking_cache_init = None\<rparr>"

definition identity_m4 :: mat4 where
  "identity_m4 = [[1, 0, 0, 0], [0, 1, 0, 0], [0, 0, 1, 0], [0, 0, 0, 1]]"

text \<open>
  The three vertices at x = 0, 1, 3, in two nodes; the paint mask of vertex 1 is 1.
\<close>

definition path3_state :: sculpt_state where
  "path3_state =
     \<lparr>vert_co = [(0, 0, 0), (1, 0, 0), (3, 0, 0)],
      vert_no = [(0, 0, 1), (0, 0, 1), (0, 0, 1)],
      vert_mask = Some [0, 1, 0],
      pbvh = Some [[0, 1], [2]],
      pbvh_type_grids = False,
      undo = Map.empty,
      filter_cache = None,
      laplacian_disp = Map.empty,
      object_to_world = identity_m4,
      rv3d_viewmat = identity_m4,
      rv3d_viewinv = identity_m4,
      deform_modifiers_active = False,
      shapekey_active = False,
      events = []\<rparr>"

text \<open>The operator with its default properties, for a filter type and a strength.\<close>

definition filter_op :: "eSculptMeshFilterType \<Rightarrow> real \<Rightarrow> wmOperator" where
  "filter_op filter_type strength =
     \<lparr>rna_type = filter_type, rna_strength = strength, rna_deform_axis = 7,
      rna_orientation = SCULPT_FILTER_ORIENTATION_LOCAL,
      rna_surface_smooth_shape_preservation = 0.5,
      rna_surface_smooth_current_vertex = 0.5,
      rna_sharpen_smooth_ratio = 0.35,
      rna_sharpen_intensify_detail_strength = 0,
      rna_sharpen_curvature_smooth_iterations = 0\<rparr>"


text \<open>The session a successful start leaves, and its cache.\<close>

definition started_state :: "collab \<Rightarrow> wmOperator \<Rightarrow> sculpt_state \<Rightarrow> sculpt_state" where
  "started_state X op ss = snd (projr (sculpt_mesh_filter_start X op ss))"

definition path3_started :: "eSculptMeshFilterType \<Rightarrow> real \<Rightarrow> sculpt_state" where
  "path3_started filter_type strength =
     started_state ref_collab (filter_op filter_type strength) path3_state"

definition path3_cache :: "eSculptMeshFilterType \<Rightarrow> real \<Rightarrow> FilterCache" where
  "path3_cache filter_type strength = the (filter_cache (path3_started filter_type strength))"

text \<open>The same three positions with the vertex indices in the opposite order.\<close>

definition path3_rev_state :: sculpt_state where
  "path3_rev_state = path3_state\<lparr>vert_co := [(3, 0, 0), (1, 0, 0), (0, 0, 0)]\<rparr>"

text \<open>Two caches with the same orientation frame and axis mask.\<close>

definition same_frame :: "FilterCache \<Rightarrow> FilterCache \<Rightarrow> bool" where
  "same_frame fc1 fc2 =
     (orientation fc1 = orientation fc2 \<and> enabled_axis fc1 = enabled_axis fc2 \<and>
      obmat fc1 = obmat fc2 \<and> obmat_inv fc1 = obmat_inv fc2 \<and>
      viewmat fc1 = viewmat fc2 \<and> viewmat_inv fc1 = viewmat_inv fc2)"

text \<open>
  A displacement, expressed in the orientation frame, has component 0 along every
  disabled axis.
\<close>

fun axis_excluded :: "bool \<times> bool \<times> bool \<Rightarrow> float3 \<Rightarrow> bool" where
  "axis_excluded (ex, ey, ez) (dx, dy, dz) = ((ex \<or> dx = 0) \<and> (ey \<or> dy = 0) \<and> (ez \<or> dz = 0))"

text \<open>
  The upper left 3x3 block of \<open>A\<close> undoes that of \<open>B\<close>:
  \<open>mul_mat3_m4_v3 A (mul_mat3_m4_v3 B v) = v\<close>. The cached frame is consistent when
  this holds for the matrices the configured orientation uses.
\<close>

definition m3_mul_entry :: "mat4 \<Rightarrow> mat4 \<Rightarrow> nat \<Rightarrow> nat \<Rightarrow> real" where
  "m3_mul_entry B A i j = B ! i ! 0 * A ! 0 ! j + B ! i ! 1 * A ! 1 ! j + B ! i ! 2 * A ! 2 ! j"

definition is_inverse_m3 :: "mat4 \<Rightarrow> mat4 \<Rightarrow> bool" where
  "is_inverse_m3 A B =
     list_all (\<lambda>i. list_all (\<lambda>j. m3_mul_entry B A i j = (if i = j then 1 else 0)) [0, 1, 2])
       [0, 1, 2]"

definition frames_consistent :: "FilterCache \<Rightarrow> bool" where
  "frames_consistent fc =
     (case orientation fc of
        SCULPT_FILTER_ORIENTATION_LOCAL \<Rightarrow> True
      | SCULPT_FILTER_ORIENTATION_WORLD \<Rightarrow> is_inverse_m3 (obmat fc) (obmat_inv fc)
      | SCULPT_FILTER_ORIENTATION_VIEW \<Rightarrow>
          is_inverse_m3 (obmat fc) (obmat_inv fc) \<and> is_inverse_m3 (viewmat fc) (viewmat_inv fc))"

text \<open>
  The position the displacement is added to (lines 552 to 557): the live position for
  surface smooth and sharpen, \<open>orig_co\<close> for the other filters.
\<close>

definition filter_base_co ::
  "eSculptMeshFilterType \<Rightarrow> FilterCache \<Rightarrow> sculpt_state \<Rightarrow> nat \<Rightarrow> float3" where
  "filter_base_co filter_type fc ss v =
     (if ELEM filter_type [MESH_FILTER_SURFACE_SMOOTH, MESH_FILTER_SHARPEN]
      then vert_co ss ! v else filter_orig_co filter_type fc ss v)"

text \<open>
  Invariants of a running filter, for a list \<open>co0\<close> of positions to return to. The
  snapshot is sound when it holds \<open>co0\<close> for the vertices it covers and the other
  vertices still sit at \<open>co0\<close>. The nodes of a list are pushed when the snapshot
  covers all their vertices. A step moves only pushed vertices when it keeps the
  snapshot and the partition and changes no position outside the snapshot. A vertex is
  restored when it sits at \<open>co0\<close>.
\<close>

definition snapshot_ok :: "float3 list \<Rightarrow> sculpt_state \<Rightarrow> bool" where
  "snapshot_ok co0 s =
     (length (vert_co s) = length co0 \<and>
      (\<forall>v. case undo s v of Some p \<Rightarrow> fst p = co0 ! v | None \<Rightarrow> vert_co s ! v = co0 ! v))"

definition nodes_pushed :: "nat list list \<Rightarrow> sculpt_state \<Rightarrow> bool" where
  "nodes_pushed ns s = (\<forall>node \<in> set ns. \<forall>v \<in> set node. undo s v \<noteq> None)"

definition only_pushed_moved :: "sculpt_state \<Rightarrow> sculpt_state \<Rightarrow> bool" where
  "only_pushed_moved s s' =
     (undo s' = undo s \<and> pbvh s' = pbvh s \<and> length (vert_co s') = length (vert_co s) \<and>
      (\<forall>v. undo s v = None \<longrightarrow> vert_co s' ! v = vert_co s ! v))"

definition vertex_restored :: "float3 list \<Rightarrow> nat \<Rightarrow> sculpt_state \<Rightarrow> bool" where
  "vertex_restored co0 v s = (v < length co0 \<longrightarrow> vert_co s ! v = co0 ! v)"

text \<open>
  The Laplacian buffer holds an estimate for every vertex of every node of the list.
\<close>

definition laplacian_stored :: "nat list list \<Rightarrow> sculpt_state \<Rightarrow> bool" where
  "laplacian_stored ns s = (\<forall>node \<in> set ns. set node \<subseteq> dom (laplacian_disp s))"

text \<open>
  The magnitudes of the detail directions (lines 625 to 632), whether every neighbour
  of every vertex is a vertex of the mesh, and whether every factor is a finite number
  between 0 and 1.
\<close>

definition sharpen_detail_lengths :: "collab \<Rightarrow> sculpt_state \<Rightarrow> real list" where
  "sharpen_detail_lengths X ss =
     map len_v3 (map (detail_direction X ss) [0..<length (vert_co ss)])"

definition neighbors_in_range :: "collab \<Rightarrow> nat \<Rightarrow> bool" where
  "neighbors_in_range X n = list_all (\<lambda>i. list_all (\<lambda>j. j < n) (neighbors X i)) [0..<n]"

definition factors_bounded :: "real option list \<Rightarrow> bool" where
  "factors_bounded fs = list_all (\<lambda>f. case f of None \<Rightarrow> False | Some x \<Rightarrow> 0 \<le> x \<and> x \<le> 1) fs"

text \<open>Three vertices at one point: every vertex equals its neighbour average.\<close>

definition path3_flat_state :: sculpt_state where
  "path3_flat_state = path3_state\<lparr>vert_co := [(1, 0, 0), (1, 0, 0), (1, 0, 0)]\<rparr>"

text \<open>
  Invariants of the smoothing passes over the pair of buffers: no factor is finite;
  every factor is finite and between 0 and 1.
\<close>

definition all_nonfinite :: "nat \<Rightarrow> float3 list \<times> real option list \<Rightarrow> bool" where
  "all_nonfinite n st = (length (snd st) = n \<and> (\<forall>i < n. snd st ! i = None))"

definition bounded_state :: "nat \<Rightarrow> float3 list \<times> real option list \<Rightarrow> bool" where
  "bounded_state n st =
     (length (snd st) = n \<and> (\<forall>i < n. \<exists>x. snd st ! i = Some x \<and> 0 \<le> x \<and> x \<le> 1))"

text \<open>
  The three vertices with the paint mask on vertex 2 instead: the leaf \<open>[2]\<close> is fully
  masked. \<open>SCULPT_search_sphere_cb\<close> is defined outside this file; the start sets
  \<open>ignore_fully_ineffective\<close> (line 127), and the search then leaves out a leaf whose
  vertices are all masked. The session a start with surface smooth leaves on this mesh.
\<close>

definition path3_masked_leaf_state :: sculpt_state where
  "path3_masked_leaf_state = path3_state\<lparr>vert_mask := Some [0, 0, 1]\<rparr>"

definition leaf_skipping_collab :: collab where
  "leaf_skipping_collab =
     ref_collab\<lparr>search_sphere_cb := (\<lambda>node. \<not> list_all (\<lambda>v. [0, 0, 1 :: real] ! v = 1) node)\<rparr>"

definition masked_leaf_started :: "collab \<Rightarrow> sculpt_state" where
  "masked_leaf_started X =
     started_state X (filter_op MESH_FILTER_SURFACE_SMOOTH 1) path3_masked_leaf_state"

section \<open>Properties\<close>

lemmas run_defs =
  sculpt_mesh_filter_apply_def mesh_filter_task_cb_def mesh_filter_vertex_def
  mesh_filter_final_pos_def filter_orig_co_def mesh_filter_displacement_def vertex_fade_def
  mesh_filter_surface_smooth_displace_task_cb_def surface_smooth_displace_vertex_def
  SCULPT_undo_push_node_def SCULPT_orig_vert_data_def log_event_def
  filter_axis_displacement_def SCULPT_filter_to_orientation_space_def
  SCULPT_filter_to_object_space_def ELEM_def Let_def clamp_f_def relax_face_sets_mode_def
  sculpt_mesh_filter_start_def start_prepare_def start_configure_cache_def
  SCULPT_filter_cache_init_def SCULPT_undo_push_begin_def
  sculpt_mesh_filter_needs_pmap_def filter_cache_zero_def
  filter_op_def path3_state_def ref_collab_def identity_m4_def
  ref_neighbor_average_def ref_laplacian_step_def ref_displace_step_def path3_neighbors_def
  mesh_filter_surface_smooth_init_def started_state_def path3_started_def path3_cache_def
  path3_rev_state_def

subsection \<open>Loops and field bookkeeping\<close>

lemma fold_err_invariant:
  assumes "fold_err f xs s = Inr s'" and "P s"
    and "\<And>a x b. f a x = Inr b \<Longrightarrow> P a \<Longrightarrow> P b"
  shows "P s'"
  using assms(1,2)
proof (induction xs arbitrary: s)
  case Nil
  then show ?case by simp
next
  case (Cons x xs)
  then show ?case
    by (auto split: sum.splits intro: assms(3))
qed

lemma madd_v3_zero [simp]: "madd_v3_v3v3fl a b 0 = a"
  by (cases a; cases b) simp

lemma clamp_f_zero [simp]: "clamp_f 0 0 1 = 0"
  by (simp add: clamp_f_def)

lemma log_event_fields [simp]:
  "vert_co (log_event e s) = vert_co s"
  "vert_no (log_event e s) = vert_no s"
  "vert_mask (log_event e s) = vert_mask s"
  "undo (log_event e s) = undo s"
  "pbvh (log_event e s) = pbvh s"
  "filter_cache (log_event e s) = filter_cache s"
  "laplacian_disp (log_event e s) = laplacian_disp s"
  "events (log_event e s) = events s @ [e]"
  by (simp_all add: log_event_def)

lemma undo_push_node_fields [simp]:
  "vert_co (SCULPT_undo_push_node s n) = vert_co s"
  "vert_no (SCULPT_undo_push_node s n) = vert_no s"
  "vert_mask (SCULPT_undo_push_node s n) = vert_mask s"
  "pbvh (SCULPT_undo_push_node s n) = pbvh s"
  "filter_cache (SCULPT_undo_push_node s n) = filter_cache s"
  "laplacian_disp (SCULPT_undo_push_node s n) = laplacian_disp s"
  "events (SCULPT_undo_push_node s n) = events s"
  by (simp_all add: SCULPT_undo_push_node_def)

subsection \<open>A vertex with zero fade does not move\<close>

text \<open>The fade is zero at zero strength, and under a paint mask of 1.\<close>

lemma vertex_fade_zero_strength: "vertex_fade fc ss 0 v = 0"
  by (simp add: vertex_fade_def)

lemma vertex_fade_fully_masked:
  "vert_mask ss = Some m \<Longrightarrow> m ! v = 1 \<Longrightarrow> vertex_fade fc ss strength v = 0"
  by (simp add: vertex_fade_def)

lemma surface_smooth_displacement_fade:
  "mesh_filter_displacement X fc s MESH_FILTER_SURFACE_SMOOTH fade u oc od = Inr (disp, fade', lap)
   \<Longrightarrow> fade' = fade"
  by (auto simp: mesh_filter_displacement_def Let_def split: prod.splits)

lemma mesh_filter_final_pos_fade0:
  assumes "mesh_filter_final_pos X ft str fc s v = Inr (Some (p, lap))"
    and "vertex_fade fc s str v = 0"
  shows "p = vert_co s ! v"
proof -
  from assms have ft: "ft = MESH_FILTER_SURFACE_SMOOTH"
    by (auto simp: mesh_filter_final_pos_def Let_def split: if_splits)
  with assms show ?thesis
    by (auto simp: mesh_filter_final_pos_def Let_def ELEM_def
        split: if_splits sum.splits prod.splits dest!: surface_smooth_displacement_fade)
qed

lemma mesh_filter_vertex_keeps:
  assumes "mesh_filter_vertex X ft str fc s u = Inr s'"
    and "vertex_fade fc s str v = 0"
  shows "vert_co s' ! v = vert_co s ! v \<and> vert_mask s' = vert_mask s"
proof (cases "u = v")
  case True
  with assms show ?thesis
    by (auto simp: mesh_filter_vertex_def split: sum.splits option.splits prod.splits
        dest!: mesh_filter_final_pos_fade0)
next
  case False
  with assms(1) show ?thesis
    by (auto simp: mesh_filter_vertex_def split: sum.splits option.splits prod.splits)
qed

lemma displace_vertex_keeps:
  assumes "surface_smooth_displace_vertex X str fc s u = Inr s'"
    and "vertex_fade fc s str v = 0"
  shows "vert_co s' ! v = vert_co s ! v \<and> vert_mask s' = vert_mask s"
  using assms
  by (cases "u = v") (auto simp: surface_smooth_displace_vertex_def Let_def split: if_splits)

text \<open>A loop of steps that keep the vertex and the mask keeps them.\<close>

lemma passes_keep:
  assumes "fold_err f ns s = Inr s'"
    and "vertex_fade fc s str v = 0"
    and "\<And>a n b. f a n = Inr b \<Longrightarrow> vertex_fade fc a str v = 0 \<Longrightarrow>
           vert_co b ! v = vert_co a ! v \<and> vert_mask b = vert_mask a"
  shows "vert_co s' ! v = vert_co s ! v \<and> vert_mask s' = vert_mask s"
proof -
  let ?P = "\<lambda>t. vert_co t ! v = vert_co s ! v \<and> vert_mask t = vert_mask s"
  show "?P s'"
  proof (rule fold_err_invariant [OF assms(1), where P = ?P])
    show "?P s" by simp
  next
    fix a x b
    assume step: "f a x = Inr b" and a: "?P a"
    from a assms(2) have "vertex_fade fc a str v = 0"
      by (simp add: vertex_fade_def)
    from assms(3) [OF step this] a show "?P b" by simp
  qed
qed

lemma mesh_filter_task_cb_keeps:
  assumes "mesh_filter_task_cb X ft str fc s node = Inr s'"
    and "vertex_fade fc s str v = 0"
  shows "vert_co s' ! v = vert_co s ! v \<and> vert_mask s' = vert_mask s"
proof -
  from assms(1) obtain t where
    t: "fold_err (mesh_filter_vertex X ft str fc) node (SCULPT_undo_push_node s node) = Inr t"
    and s': "s' = log_event (EvNodeMarkUpdate node) t"
    by (auto simp: mesh_filter_task_cb_def split: sum.splits)
  from assms(2) have "vertex_fade fc (SCULPT_undo_push_node s node) str v = 0"
    by (simp add: vertex_fade_def)
  from passes_keep [OF t this] mesh_filter_vertex_keeps
  have "vert_co t ! v = vert_co (SCULPT_undo_push_node s node) ! v \<and>
        vert_mask t = vert_mask (SCULPT_undo_push_node s node)"
    by blast
  with s' show ?thesis by simp
qed

lemma displace_task_cb_keeps:
  assumes "mesh_filter_surface_smooth_displace_task_cb X str fc s node = Inr s'"
    and "vertex_fade fc s str v = 0"
  shows "vert_co s' ! v = vert_co s ! v \<and> vert_mask s' = vert_mask s"
proof -
  from assms(1) have
    t: "fold_err (surface_smooth_displace_vertex X str fc) node s = Inr s'"
    by (simp add: mesh_filter_surface_smooth_displace_task_cb_def)
  from passes_keep [OF t assms(2)] displace_vertex_keeps show ?thesis
    by blast
qed

text \<open>
  C1. For every filter type and every vertex: when the fade of the vertex is zero (as
  it is at strength 0, and under a paint mask of 1), one call of
  \<open>sculpt_mesh_filter_apply\<close> leaves the position of the vertex as it was before the
  call. This includes the surface smooth filter, which does not skip the vertex but
  blends with factor zero.
\<close>

theorem apply_zero_fade_keeps_position:
  assumes "sculpt_mesh_filter_apply X op ss = Inr ss'"
    and "filter_cache ss = Some fc"
    and "vertex_fade fc ss (rna_strength op) v = 0"
  shows "vert_co ss' ! v = vert_co ss ! v"
proof -
  define ss0 where "ss0 = (let s = log_event EvVertexRandomAccessEnsure ss in
     if rna_type op = MESH_FILTER_SURFACE_SMOOTH
     then log_event EvSurfaceSmoothLaplacianInit s else s)"
  have ss0: "vert_co ss0 = vert_co ss" "vert_mask ss0 = vert_mask ss"
    by (simp_all add: ss0_def Let_def)
  from assms(1,2) obtain ss1 ss2 where
    p1: "fold_err (mesh_filter_task_cb X (rna_type op) (rna_strength op) fc) (nodes fc) ss0 = Inr ss1"
    and p2: "(if rna_type op = MESH_FILTER_SURFACE_SMOOTH
              then fold_err (mesh_filter_surface_smooth_displace_task_cb X (rna_strength op) fc)
                     (nodes fc) ss1
              else Inr ss1) = Inr ss2"
    and co: "vert_co ss' = vert_co ss2"
    by (auto simp: sculpt_mesh_filter_apply_def ss0_def Let_def split: sum.splits if_splits)
  from assms(3) ss0 have f0: "vertex_fade fc ss0 (rna_strength op) v = 0"
    by (simp add: vertex_fade_def)
  have k1: "vert_co ss1 ! v = vert_co ss0 ! v \<and> vert_mask ss1 = vert_mask ss0"
    by (rule passes_keep [OF p1 f0]) (rule mesh_filter_task_cb_keeps)
  then have f1: "vertex_fade fc ss1 (rna_strength op) v = 0"
    using f0 by (simp add: vertex_fade_def)
  have k2: "vert_co ss2 ! v = vert_co ss1 ! v"
  proof (cases "rna_type op = MESH_FILTER_SURFACE_SMOOTH")
    case True
    with p2 have "fold_err (mesh_filter_surface_smooth_displace_task_cb X (rna_strength op) fc)
                     (nodes fc) ss1 = Inr ss2" by simp
    from passes_keep [OF this f1] displace_task_cb_keeps show ?thesis by blast
  next
    case False
    with p2 show ?thesis by simp
  qed
  from co k1 k2 ss0 show ?thesis by simp
qed

text \<open>
  On the three vertices, surface smooth at strength 1: vertex 1 is fully masked and
  stays at x = 1, while vertex 2 moves.
\<close>

theorem apply_zero_fade_keeps_position_witness:
  "filter_cache (path3_started MESH_FILTER_SURFACE_SMOOTH 1) =
     Some (path3_cache MESH_FILTER_SURFACE_SMOOTH 1) \<and>
   vertex_fade (path3_cache MESH_FILTER_SURFACE_SMOOTH 1)
     (path3_started MESH_FILTER_SURFACE_SMOOTH 1)
     (rna_strength (filter_op MESH_FILTER_SURFACE_SMOOTH 1)) 1 = 0 \<and>
   (case sculpt_mesh_filter_apply ref_collab (filter_op MESH_FILTER_SURFACE_SMOOTH 1)
           (path3_started MESH_FILTER_SURFACE_SMOOTH 1) of
      Inl e \<Rightarrow> False
    | Inr ss' \<Rightarrow> vert_co ss' ! 1 = (1, 0, 0) \<and> vert_co ss' ! 2 \<noteq> (3, 0, 0))"
proof -
  let ?s = "path3_started MESH_FILTER_SURFACE_SMOOTH 1"
  let ?op = "filter_op MESH_FILTER_SURFACE_SMOOTH 1"
  have c: "filter_cache ?s = Some (path3_cache MESH_FILTER_SURFACE_SMOOTH 1)"
    by (simp add: run_defs)
  have f: "vertex_fade (path3_cache MESH_FILTER_SURFACE_SMOOTH 1) ?s (rna_strength ?op) 1 = 0"
    by (simp add: run_defs)
  have "\<exists>ss'. sculpt_mesh_filter_apply ref_collab ?op ?s = Inr ss' \<and> vert_co ss' ! 2 \<noteq> (3, 0, 0)"
    by (simp add: run_defs)
  then obtain ss' where a: "sculpt_mesh_filter_apply ref_collab ?op ?s = Inr ss'"
    and m: "vert_co ss' ! 2 \<noteq> (3, 0, 0)"
    by blast
  have "vert_co ?s ! 1 = (1, 0, 0)"
    by (simp add: run_defs)
  with apply_zero_fade_keeps_position [OF a c f] have "vert_co ss' ! 1 = (1, 0, 0)"
    by simp
  with a c f m show ?thesis by simp
qed


subsection \<open>Start with an empty axis mask\<close>

text \<open>
  C4. When the deform axis mask of the operator is empty, \<open>sculpt_mesh_filter_start\<close>
  returns \<open>OPERATOR_CANCELLED\<close> and the session is the one it was given, except for
  the log: the only call made is the refresh of the sculpt session
  (\<open>BKE_sculpt_update_object_for_edit\<close>), which precedes the test. No undo step is
  begun, no filter cache is allocated, and positions, normals, mask and snapshot are
  untouched.
\<close>

theorem start_without_axis_is_cancelled:
  assumes "rna_deform_axis op = 0"
  shows "sculpt_mesh_filter_start X op ss =
           Inr (OPERATOR_CANCELLED,
                ss\<lparr>events := events ss @
                   [EvUpdateObjectForEdit
                      (sculpt_mesh_filter_needs_pmap (rna_type op) \<or> is_automasking_enabled X)]\<rparr>)"
  using assms by (simp add: sculpt_mesh_filter_start_def Let_def log_event_def)


text \<open>The smooth filter on the three vertices, with no axis enabled.\<close>

theorem start_without_axis_is_cancelled_witness:
  "rna_deform_axis ((filter_op MESH_FILTER_SMOOTH 1)\<lparr>rna_deform_axis := 0\<rparr>) = 0 \<and>
   sculpt_mesh_filter_start ref_collab ((filter_op MESH_FILTER_SMOOTH 1)\<lparr>rna_deform_axis := 0\<rparr>)
       path3_state =
     Inr (OPERATOR_CANCELLED, path3_state\<lparr>events := [EvUpdateObjectForEdit True]\<rparr>)"
proof -
  have h: "rna_deform_axis ((filter_op MESH_FILTER_SMOOTH 1)\<lparr>rna_deform_axis := 0\<rparr>) = 0"
    by simp
  from start_without_axis_is_cancelled [OF h, of ref_collab path3_state] h
  show ?thesis
    by (simp add: sculpt_mesh_filter_needs_pmap_def ELEM_def filter_op_def path3_state_def)
qed

subsection \<open>What one iteration requests from the editor\<close>

lemma mesh_filter_vertex_events:
  "mesh_filter_vertex X ft str fc s u = Inr s' \<Longrightarrow> events s' = events s"
  by (auto simp: mesh_filter_vertex_def split: sum.splits option.splits prod.splits)

lemma displace_vertex_events:
  "surface_smooth_displace_vertex X str fc s u = Inr s' \<Longrightarrow> events s' = events s"
  by (auto simp: surface_smooth_displace_vertex_def Let_def split: if_splits)

lemma mesh_filter_task_cb_events:
  assumes "mesh_filter_task_cb X ft str fc s node = Inr s'"
  shows "events s' = events s @ [EvNodeMarkUpdate node]"
proof -
  from assms obtain t where
    t: "fold_err (mesh_filter_vertex X ft str fc) node (SCULPT_undo_push_node s node) = Inr t"
    and s': "s' = log_event (EvNodeMarkUpdate node) t"
    by (auto simp: mesh_filter_task_cb_def split: sum.splits)
  have "events t = events s"
    by (rule fold_err_invariant [OF t, where P = "\<lambda>a. events a = events s"])
       (simp_all add: mesh_filter_vertex_events)
  with s' show ?thesis by simp
qed

lemma displace_task_cb_events:
  assumes "mesh_filter_surface_smooth_displace_task_cb X str fc s node = Inr s'"
  shows "events s' = events s"
  by (rule fold_err_invariant [OF assms [unfolded mesh_filter_surface_smooth_displace_task_cb_def],
        where P = "\<lambda>a. events a = events s"])
     (simp_all add: displace_vertex_events)

lemma task_pass_events:
  "fold_err (mesh_filter_task_cb X ft str fc) ns s = Inr s' \<Longrightarrow>
   events s' = events s @ map EvNodeMarkUpdate ns"
proof (induction ns arbitrary: s)
  case Nil
  then show ?case by simp
next
  case (Cons n ns)
  then show ?case
    by (auto split: sum.splits dest!: mesh_filter_task_cb_events)
qed

lemma displace_pass_events:
  "fold_err (mesh_filter_surface_smooth_displace_task_cb X str fc) ns s = Inr s' \<Longrightarrow>
   events s' = events s"
proof (induction ns arbitrary: s)
  case Nil
  then show ?case by simp
next
  case (Cons n ns)
  then show ?case
    by (auto split: sum.splits dest!: displace_task_cb_events)
qed

lemma apply_events:
  assumes "sculpt_mesh_filter_apply X op ss = Inr ss'" and "filter_cache ss = Some fc"
  shows "events ss' = events ss @ [EvVertexRandomAccessEnsure] @
           (if rna_type op = MESH_FILTER_SURFACE_SMOOTH then [EvSurfaceSmoothLaplacianInit] else []) @
           map EvNodeMarkUpdate (nodes fc) @
           (if deform_modifiers_active ss' \<or> shapekey_active ss' then [EvFlushStrokeDeform] else []) @
           [EvFlushUpdateStep]"
  using assms
  by (auto simp: sculpt_mesh_filter_apply_def Let_def ELEM_def log_event_def
      split: sum.splits if_splits dest!: task_pass_events displace_pass_events)

lemma apply_increments_iteration_count:
  assumes "sculpt_mesh_filter_apply X op ss = Inr ss'" and "filter_cache ss = Some fc"
  shows "filter_cache ss' = Some (fc\<lparr>iteration_count := iteration_count fc + 1\<rparr>)"
  using assms
  by (auto simp: sculpt_mesh_filter_apply_def Let_def ELEM_def log_event_def
      split: sum.splits if_splits)

text \<open>
  C5. One call of \<open>sculpt_mesh_filter_apply\<close> for the relax filter, on the three
  vertices in their two nodes, with the log emptied before the call: each node is
  visited once, the iteration counter goes from 0 to 1, and the normals of the
  partition are not refreshed. The test of line 748 is \<open>ELEM\<close> of the relax filter
  against the one-element list of the relax face sets filter; it does not mention the
  filter type of the operator and is false. The lemma \<open>apply_events\<close> gives the log
  of a call for every filter type and every session.
\<close>

theorem relax_apply_requests_no_normal_refresh:
  "ELEM MESH_FILTER_RELAX [MESH_FILTER_RELAX_FACE_SETS] = False \<and>
   (case sculpt_mesh_filter_apply ref_collab (filter_op MESH_FILTER_RELAX 1)
           ((path3_started MESH_FILTER_RELAX 1)\<lparr>events := []\<rparr>) of
      Inl e \<Rightarrow> False
    | Inr ss' \<Rightarrow>
        events ss' = [EvVertexRandomAccessEnsure, EvNodeMarkUpdate [0, 1], EvNodeMarkUpdate [2],
                      EvFlushUpdateStep] \<and>
        EvPbvhUpdateNormals \<notin> set (events ss') \<and>
        map_option iteration_count (filter_cache ss') = Some 1)"
  by (simp add: run_defs)

subsection \<open>The relax face sets filter\<close>

text \<open>
  C8, as amended. For the relax face sets filter the mode flag is set on the iterations
  whose counter is not a multiple of 3. A vertex is skipped exactly when its fade is
  zero (the test of line 397, which comes first) or the flag equals whether it has a
  unique face set; every other vertex is relaxed, with the mesh boundary rule alone
  when the counter is a multiple of 3 and with the face set boundary rule added on the
  other iterations.
\<close>

theorem relax_face_sets_skip_rule:
  "relax_face_sets_mode fc = (iteration_count fc mod 3 \<noteq> 0) \<and>
   mesh_filter_final_pos X MESH_FILTER_RELAX_FACE_SETS strength fc ss v =
     (if vertex_fade fc ss strength v = 0 \<or>
         relax_face_sets_mode fc = vertex_has_unique_face_set X v
      then Inr None
      else Inr (Some
        (add_v3_v3v3 (vert_co ss ! v)
           (filter_axis_displacement fc
              (sub_v3_v3v3
                 (relax_vertex X (vert_co ss) v
                    (clamp_f (vertex_fade fc ss strength v) 0 1)
                    (if iteration_count fc mod 3 = 0 then [SCULPT_BOUNDARY_MESH]
                     else [SCULPT_BOUNDARY_MESH, SCULPT_BOUNDARY_FACE_SET]))
                 (vert_co ss ! v))),
         None)))"
  by (simp add: mesh_filter_final_pos_def mesh_filter_displacement_def filter_orig_co_def
      relax_face_sets_mode_def ELEM_def Let_def)

text \<open>
  On the three vertices with strength 1. At iteration 0 the flag is not set: vertex 0,
  which has a unique face set, is relaxed to the position of its neighbour and vertex 2,
  which has none, is skipped. At iteration 1 the flag is set: vertex 0 is skipped and
  vertex 2 is relaxed. The flag is set at iteration 2 and not at iteration 3.
\<close>

theorem relax_face_sets_skip_rule_witness:
  "mesh_filter_final_pos ref_collab MESH_FILTER_RELAX_FACE_SETS 1
      (path3_cache MESH_FILTER_RELAX_FACE_SETS 1)
      (path3_started MESH_FILTER_RELAX_FACE_SETS 1) 0 = Inr (Some ((1, 0, 0), None)) \<and>
   mesh_filter_final_pos ref_collab MESH_FILTER_RELAX_FACE_SETS 1
      (path3_cache MESH_FILTER_RELAX_FACE_SETS 1)
      (path3_started MESH_FILTER_RELAX_FACE_SETS 1) 2 = Inr None \<and>
   mesh_filter_final_pos ref_collab MESH_FILTER_RELAX_FACE_SETS 1
      ((path3_cache MESH_FILTER_RELAX_FACE_SETS 1)\<lparr>iteration_count := 1\<rparr>)
      (path3_started MESH_FILTER_RELAX_FACE_SETS 1) 0 = Inr None \<and>
   mesh_filter_final_pos ref_collab MESH_FILTER_RELAX_FACE_SETS 1
      ((path3_cache MESH_FILTER_RELAX_FACE_SETS 1)\<lparr>iteration_count := 1\<rparr>)
      (path3_started MESH_FILTER_RELAX_FACE_SETS 1) 2 = Inr (Some ((1, 0, 0), None)) \<and>
   relax_face_sets_mode ((path3_cache MESH_FILTER_RELAX_FACE_SETS 1)\<lparr>iteration_count := 1\<rparr>) \<and>
   relax_face_sets_mode ((path3_cache MESH_FILTER_RELAX_FACE_SETS 1)\<lparr>iteration_count := 2\<rparr>) \<and>
   \<not> relax_face_sets_mode ((path3_cache MESH_FILTER_RELAX_FACE_SETS 1)\<lparr>iteration_count := 3\<rparr>)"
proof -
  let ?fc = "path3_cache MESH_FILTER_RELAX_FACE_SETS 1"
  let ?s = "path3_started MESH_FILTER_RELAX_FACE_SETS 1"
  have f: "vertex_fade ?fc ?s 1 0 = 1" "vertex_fade ?fc ?s 1 2 = 1"
    "vertex_fade (?fc\<lparr>iteration_count := 1\<rparr>) ?s 1 0 = 1"
    "vertex_fade (?fc\<lparr>iteration_count := 1\<rparr>) ?s 1 2 = 1"
    by (simp_all add: run_defs)
  have i: "iteration_count ?fc = 0"
    by (simp add: run_defs)
  note r = relax_face_sets_skip_rule [where X = ref_collab and strength = 1 and ss = ?s]
  from r [where fc = ?fc and v = 0] r [where fc = ?fc and v = 2]
    r [where fc = "?fc\<lparr>iteration_count := 1\<rparr>" and v = 0]
    r [where fc = "?fc\<lparr>iteration_count := 1\<rparr>" and v = 2]
    r [where fc = "?fc\<lparr>iteration_count := 2\<rparr>" and v = 0]
    r [where fc = "?fc\<lparr>iteration_count := 3\<rparr>" and v = 0]
    f i
  show ?thesis
    by (simp add: run_defs)
qed

text \<open>
  C8, as stated, fails: at iteration 1 the flag is set and vertex 1 has no unique face
  set, so the two differ, but vertex 1 is fully masked, its fade is zero, and it is
  skipped.
\<close>

theorem relax_face_sets_zero_fade_counterexample:
  "relax_face_sets_mode ((path3_cache MESH_FILTER_RELAX_FACE_SETS 1)\<lparr>iteration_count := 1\<rparr>) \<and>
   \<not> vertex_has_unique_face_set ref_collab 1 \<and>
   mesh_filter_final_pos ref_collab MESH_FILTER_RELAX_FACE_SETS 1
      ((path3_cache MESH_FILTER_RELAX_FACE_SETS 1)\<lparr>iteration_count := 1\<rparr>)
      (path3_started MESH_FILTER_RELAX_FACE_SETS 1) 1 = Inr None"
  by (simp add: run_defs)

subsection \<open>The random filter\<close>

lemma random_hash_seed:
  "random_seed fc1 = random_seed fc2 \<Longrightarrow> random_hash X fc1 c = random_hash X fc2 c"
  by (cases c) simp

lemma filter_axis_displacement_same_frame:
  "same_frame fc1 fc2 \<Longrightarrow> filter_axis_displacement fc1 d = filter_axis_displacement fc2 d"
  by (auto simp: same_frame_def filter_axis_displacement_def
      SCULPT_filter_to_orientation_space_def SCULPT_filter_to_object_space_def
      split: SculptFilterOrientation.splits)

lemma random_final_pos:
  "mesh_filter_final_pos X MESH_FILTER_RANDOM strength fc ss v =
     (if vertex_fade fc ss strength v = 0 then Inr None
      else Inr (Some
        (add_v3_v3v3 (filter_orig_co MESH_FILTER_RANDOM fc ss v)
           (filter_axis_displacement fc
              (mul_v3_v3fl
                 (mul_v3_v3fl (snd (SCULPT_orig_vert_data ss v))
                    (real (unat (random_hash X fc (filter_orig_co MESH_FILTER_RANDOM fc ss v))) *
                     (1 / 4294967295) - 0.5))
                 (vertex_fade fc ss strength v))),
         None)))"
  by (simp add: mesh_filter_final_pos_def mesh_filter_displacement_def Let_def ELEM_def)

text \<open>
  C7. The hash of the random filter is a function of the coordinates the rule starts
  from (\<open>orig_co\<close>) and of the seed; the vertex index does not enter. For two
  vertices, of the same or of two sessions, with the same \<open>orig_co\<close>, the same
  original normal, the same fade, the same seed and the same frame, the hashes and the
  positions written are equal.
\<close>

theorem random_filter_hashes_coordinates:
  assumes "random_seed fc1 = random_seed fc2"
    and "filter_orig_co MESH_FILTER_RANDOM fc1 ss1 v1 = filter_orig_co MESH_FILTER_RANDOM fc2 ss2 v2"
    and "snd (SCULPT_orig_vert_data ss1 v1) = snd (SCULPT_orig_vert_data ss2 v2)"
    and "vertex_fade fc1 ss1 strength v1 = vertex_fade fc2 ss2 strength v2"
    and "same_frame fc1 fc2"
  shows "random_hash X fc1 (filter_orig_co MESH_FILTER_RANDOM fc1 ss1 v1) =
           random_hash X fc2 (filter_orig_co MESH_FILTER_RANDOM fc2 ss2 v2) \<and>
         mesh_filter_final_pos X MESH_FILTER_RANDOM strength fc1 ss1 v1 =
           mesh_filter_final_pos X MESH_FILTER_RANDOM strength fc2 ss2 v2"
proof -
  have h: "random_hash X fc1 (filter_orig_co MESH_FILTER_RANDOM fc1 ss1 v1) =
           random_hash X fc2 (filter_orig_co MESH_FILTER_RANDOM fc2 ss2 v2)"
    unfolding assms(2) by (rule random_hash_seed [OF assms(1)])
  have "mesh_filter_final_pos X MESH_FILTER_RANDOM strength fc1 ss1 v1 =
           mesh_filter_final_pos X MESH_FILTER_RANDOM strength fc2 ss2 v2"
    unfolding random_final_pos h assms(3,4) filter_axis_displacement_same_frame [OF assms(5)]
    unfolding assms(2) ..
  with h show ?thesis ..
qed

text \<open>
  Vertex 0 of the three vertices and vertex 2 of the mesh with the indices reversed
  both sit at the origin: they get the same position.
\<close>

theorem random_filter_hashes_coordinates_witness:
  "random_seed (path3_cache MESH_FILTER_RANDOM 1) =
     random_seed (the (filter_cache (started_state ref_collab (filter_op MESH_FILTER_RANDOM 1) path3_rev_state))) \<and>
   filter_orig_co MESH_FILTER_RANDOM (path3_cache MESH_FILTER_RANDOM 1)
     (path3_started MESH_FILTER_RANDOM 1) 0 = (0, 0, 0) \<and>
   filter_orig_co MESH_FILTER_RANDOM
     (the (filter_cache (started_state ref_collab (filter_op MESH_FILTER_RANDOM 1) path3_rev_state)))
     (started_state ref_collab (filter_op MESH_FILTER_RANDOM 1) path3_rev_state) 2 = (0, 0, 0) \<and>
   mesh_filter_final_pos ref_collab MESH_FILTER_RANDOM 1 (path3_cache MESH_FILTER_RANDOM 1)
     (path3_started MESH_FILTER_RANDOM 1) 0 =
   mesh_filter_final_pos ref_collab MESH_FILTER_RANDOM 1
     (the (filter_cache (started_state ref_collab (filter_op MESH_FILTER_RANDOM 1) path3_rev_state)))
     (started_state ref_collab (filter_op MESH_FILTER_RANDOM 1) path3_rev_state) 2 \<and>
   mesh_filter_final_pos ref_collab MESH_FILTER_RANDOM 1 (path3_cache MESH_FILTER_RANDOM 1)
     (path3_started MESH_FILTER_RANDOM 1) 0 \<noteq> Inr None"
proof -
  let ?fc1 = "path3_cache MESH_FILTER_RANDOM 1"
  let ?s1 = "path3_started MESH_FILTER_RANDOM 1"
  let ?s2 = "started_state ref_collab (filter_op MESH_FILTER_RANDOM 1) path3_rev_state"
  let ?fc2 = "the (filter_cache ?s2)"
  have a: "random_seed ?fc1 = random_seed ?fc2"
    by (simp add: run_defs)
  have b1: "filter_orig_co MESH_FILTER_RANDOM ?fc1 ?s1 0 = (0, 0, 0)"
    by (simp add: run_defs)
  have b2: "filter_orig_co MESH_FILTER_RANDOM ?fc2 ?s2 2 = (0, 0, 0)"
    by (simp add: run_defs)
  have c: "snd (SCULPT_orig_vert_data ?s1 0) = snd (SCULPT_orig_vert_data ?s2 2)"
    by (simp add: run_defs)
  have d: "vertex_fade ?fc1 ?s1 1 0 = vertex_fade ?fc2 ?s2 1 2"
    by (simp add: run_defs)
  have e: "same_frame ?fc1 ?fc2"
    by (simp add: run_defs same_frame_def)
  have n: "mesh_filter_final_pos ref_collab MESH_FILTER_RANDOM 1 ?fc1 ?s1 0 \<noteq> Inr None"
    by (simp add: run_defs)
  from random_filter_hashes_coordinates [OF a _ c d e, of ref_collab] b1 b2 a n
  show ?thesis by simp
qed


subsection \<open>Axis exclusion\<close>

lemma mul_mat3_inverse:
  assumes "is_inverse_m3 A B"
  shows "mul_mat3_m4_v3 A (mul_mat3_m4_v3 B v) = v"
proof -
  obtain x y z where v: "v = (x, y, z)" by (cases v)
  from assms have e:
    "m3_mul_entry B A 0 0 = 1" "m3_mul_entry B A 0 (Suc 0) = 0" "m3_mul_entry B A 0 2 = 0"
    "m3_mul_entry B A (Suc 0) 0 = 0" "m3_mul_entry B A (Suc 0) (Suc 0) = 1"
    "m3_mul_entry B A (Suc 0) 2 = 0"
    "m3_mul_entry B A 2 0 = 0" "m3_mul_entry B A 2 (Suc 0) = 0" "m3_mul_entry B A 2 2 = 1"
    by (simp_all add: is_inverse_m3_def)
  have "mul_mat3_m4_v3 A (mul_mat3_m4_v3 B v) =
          (x * m3_mul_entry B A 0 0 + y * m3_mul_entry B A 1 0 + z * m3_mul_entry B A 2 0,
           x * m3_mul_entry B A 0 1 + y * m3_mul_entry B A 1 1 + z * m3_mul_entry B A 2 1,
           x * m3_mul_entry B A 0 2 + y * m3_mul_entry B A 1 2 + z * m3_mul_entry B A 2 2)"
    by (simp add: v m3_mul_entry_def algebra_simps)
  then show ?thesis by (simp add: e v)
qed

lemma mul_mat3_scale:
  "mul_mat3_m4_v3 M (mul_v3_v3fl v c) = mul_v3_v3fl (mul_mat3_m4_v3 M v) c"
  by (cases v) (simp add: algebra_simps)

lemma to_orientation_of_object:
  "frames_consistent fc \<Longrightarrow>
   SCULPT_filter_to_orientation_space fc (SCULPT_filter_to_object_space fc u) = u"
  by (auto simp: frames_consistent_def SCULPT_filter_to_orientation_space_def
      SCULPT_filter_to_object_space_def mul_mat3_inverse split: SculptFilterOrientation.splits)

lemma to_orientation_scale:
  "SCULPT_filter_to_orientation_space fc (mul_v3_v3fl u c) =
   mul_v3_v3fl (SCULPT_filter_to_orientation_space fc u) c"
  by (auto simp: SCULPT_filter_to_orientation_space_def mul_mat3_scale
      split: SculptFilterOrientation.splits)

lemma axis_excluded_zero_disabled: "axis_excluded e (zero_disabled_axis e d)"
  by (cases e; cases d) auto

lemma axis_excluded_scale: "axis_excluded e d \<Longrightarrow> axis_excluded e (mul_v3_v3fl d c)"
  by (cases e; cases d) auto

lemma sub_add_v3 [simp]: "sub_v3_v3v3 (add_v3_v3v3 a b) a = b"
  by (cases a; cases b) simp

lemma sub_madd_v3 [simp]: "sub_v3_v3v3 (madd_v3_v3v3fl a b c) a = mul_v3_v3fl b c"
  by (cases a; cases b) simp

lemma filter_axis_displacement_excluded:
  assumes "frames_consistent fc"
  shows "axis_excluded (enabled_axis fc)
           (SCULPT_filter_to_orientation_space fc (filter_axis_displacement fc d))"
  by (simp add: filter_axis_displacement_def to_orientation_of_object [OF assms]
      axis_excluded_zero_disabled)

text \<open>
  The displacement that \<open>mesh_filter_task_cb\<close> adds to a vertex has, in a consistent
  orientation frame, component 0 along every disabled axis, for every filter type.
\<close>

lemma task_displacement_excludes_disabled_axes:
  assumes "mesh_filter_final_pos X filter_type strength fc ss v = Inr (Some (final_pos, lap))"
    and "frames_consistent fc"
  shows "axis_excluded (enabled_axis fc)
           (SCULPT_filter_to_orientation_space fc
              (sub_v3_v3v3 final_pos (filter_base_co filter_type fc ss v)))"
proof -
  from assms(1) obtain disp fade' where
    fp: "final_pos =
          (if ELEM filter_type [MESH_FILTER_SURFACE_SMOOTH, MESH_FILTER_SHARPEN]
           then madd_v3_v3v3fl (vert_co ss ! v) (filter_axis_displacement fc disp) (clamp_f fade' 0 1)
           else add_v3_v3v3 (filter_orig_co filter_type fc ss v) (filter_axis_displacement fc disp))"
    by (auto simp: mesh_filter_final_pos_def Let_def split: if_splits sum.splits prod.splits)
  show ?thesis
  proof (cases "ELEM filter_type [MESH_FILTER_SURFACE_SMOOTH, MESH_FILTER_SHARPEN]")
    case True
    with fp show ?thesis
      by (simp add: filter_base_co_def to_orientation_scale axis_excluded_scale
          filter_axis_displacement_excluded [OF assms(2)])
  next
    case False
    with fp show ?thesis
      by (simp add: filter_base_co_def filter_axis_displacement_excluded [OF assms(2)])
  qed
qed

text \<open>
  C3. Surface smooth on the three vertices, local orientation, the X axis disabled, the
  second pass as the spec describes it. The first pass leaves vertex 0 at x = 0, as
  the axis mask demands; the second pass (\<open>mesh_filter_surface_smooth_displace_task_cb\<close>),
  which applies no axis mask, moves it to x = -3/4.
\<close>

theorem surface_smooth_moves_along_disabled_axis:
  "enabled_axis (the (filter_cache (started_state ref_collab
       ((filter_op MESH_FILTER_SURFACE_SMOOTH 1)\<lparr>rna_deform_axis := 6\<rparr>) path3_state))) =
     (False, True, True) \<and>
   orientation (the (filter_cache (started_state ref_collab
       ((filter_op MESH_FILTER_SURFACE_SMOOTH 1)\<lparr>rna_deform_axis := 6\<rparr>) path3_state))) =
     SCULPT_FILTER_ORIENTATION_LOCAL \<and>
   vert_co (started_state ref_collab
       ((filter_op MESH_FILTER_SURFACE_SMOOTH 1)\<lparr>rna_deform_axis := 6\<rparr>) path3_state) ! 0 = (0, 0, 0) \<and>
   (case sculpt_mesh_filter_apply ref_collab
           ((filter_op MESH_FILTER_SURFACE_SMOOTH 1)\<lparr>rna_deform_axis := 6\<rparr>)
           (started_state ref_collab
              ((filter_op MESH_FILTER_SURFACE_SMOOTH 1)\<lparr>rna_deform_axis := 6\<rparr>) path3_state) of
      Inl e \<Rightarrow> False
    | Inr ss' \<Rightarrow> vert_co ss' ! 0 = (- 3 / 4, 0, 0))"
  by (simp add: run_defs)


subsection \<open>Cancelling restores the mesh\<close>

lemma fold_err_invariant_set:
  assumes "fold_err f xs s = Inr s'" and "P s"
    and "\<And>a x b. x \<in> set xs \<Longrightarrow> f a x = Inr b \<Longrightarrow> P a \<Longrightarrow> P b"
  shows "P s'"
  using assms
proof (induction xs arbitrary: s)
  case Nil
  then show ?case by simp
next
  case (Cons x xs)
  from Cons.prems(1) obtain t where t: "f s x = Inr t" and r: "fold_err f xs t = Inr s'"
    by (auto split: sum.splits)
  have pt: "P t" using Cons.prems(3) [OF _ t Cons.prems(2)] by simp
  show ?case
  proof (rule Cons.IH [OF r pt])
    fix a y b
    assume "y \<in> set xs" "f a y = Inr b" "P a"
    then show "P b" using Cons.prems(3) [of y a b] by simp
  qed
qed

lemma only_pushed_moved_refl: "only_pushed_moved s s"
  by (simp add: only_pushed_moved_def)

lemma only_pushed_moved_trans:
  "only_pushed_moved a b \<Longrightarrow> only_pushed_moved b c \<Longrightarrow> only_pushed_moved a c"
  by (simp add: only_pushed_moved_def)

lemma undo_push_node_pushed:
  assumes "\<forall>v \<in> set node. undo s v \<noteq> None"
  shows "SCULPT_undo_push_node s node = s"
proof -
  have "(\<lambda>v. if v \<in> set node
              then (case undo s v of None \<Rightarrow> Some (vert_co s ! v, vert_no s ! v) | Some p \<Rightarrow> Some p)
              else undo s v) = undo s"
    using assms by (auto simp: fun_eq_iff split: option.splits)
  then show ?thesis by (simp add: SCULPT_undo_push_node_def)
qed

lemma write_moves:
  assumes "undo s v \<noteq> None" and "undo s' = undo s" and "pbvh s' = pbvh s"
    and "vert_co s' = (vert_co s)[v := p]"
  shows "only_pushed_moved s s'"
  unfolding only_pushed_moved_def
proof (intro conjI allI impI)
  fix u
  assume "undo s u = None"
  with assms(1) have "u \<noteq> v" by auto
  then show "vert_co s' ! u = vert_co s ! u" by (simp add: assms(4))
qed (simp_all add: assms)

lemma mesh_filter_vertex_moves:
  assumes "mesh_filter_vertex X ft str fc s v = Inr s'" and "undo s v \<noteq> None"
  shows "only_pushed_moved s s'"
proof (cases "mesh_filter_final_pos X ft str fc s v")
  case (Inl e)
  with assms(1) show ?thesis by (simp add: mesh_filter_vertex_def)
next
  case (Inr r)
  show ?thesis
  proof (cases r)
    case None
    with Inr assms(1) show ?thesis
      by (simp add: mesh_filter_vertex_def only_pushed_moved_refl)
  next
    case (Some pl)
    obtain p lap where pl: "pl = (p, lap)" by (cases pl)
    from Inr Some pl assms(1) have
      "undo s' = undo s" "pbvh s' = pbvh s" "vert_co s' = (vert_co s)[v := p]"
      by (auto simp: mesh_filter_vertex_def)
    from write_moves [OF assms(2) this] show ?thesis .
  qed
qed

lemma displace_vertex_moves:
  assumes "surface_smooth_displace_vertex X str fc s v = Inr s'" and "undo s v \<noteq> None"
  shows "only_pushed_moved s s'"
proof (cases "vertex_fade fc s str v = 0")
  case True
  with assms(1) show ?thesis
    by (simp add: surface_smooth_displace_vertex_def only_pushed_moved_refl)
next
  case False
  with assms(1) have
    "undo s' = undo s" "pbvh s' = pbvh s"
    "vert_co s' = (vert_co s)[v := surface_smooth_displace_step X (laplacian_disp s)
        (vert_co s ! v) v (surface_smooth_current_vertex fc)
        (clamp_f (vertex_fade fc s str v) 0 1)]"
    by (auto simp: surface_smooth_displace_vertex_def Let_def)
  from write_moves [OF assms(2) this] show ?thesis .
qed

lemma vertex_loop_moves:
  assumes "fold_err f node s = Inr s'"
    and "\<forall>v \<in> set node. undo s v \<noteq> None"
    and "\<And>a v b. f a v = Inr b \<Longrightarrow> undo a v \<noteq> None \<Longrightarrow> only_pushed_moved a b"
  shows "only_pushed_moved s s'"
proof (rule fold_err_invariant_set [OF assms(1), where P = "only_pushed_moved s"])
  show "only_pushed_moved s s" by (rule only_pushed_moved_refl)
next
  fix a x b
  assume x: "x \<in> set node" and step: "f a x = Inr b" and a: "only_pushed_moved s a"
  from a x assms(2) have "undo a x \<noteq> None" by (simp add: only_pushed_moved_def)
  from assms(3) [OF step this] a show "only_pushed_moved s b"
    by (rule only_pushed_moved_trans [rotated])
qed

lemma log_event_moves: "only_pushed_moved s (log_event e s)"
  by (simp add: only_pushed_moved_def)

lemma mesh_filter_task_cb_moves:
  assumes "mesh_filter_task_cb X ft str fc s node = Inr s'"
    and "\<forall>v \<in> set node. undo s v \<noteq> None"
  shows "only_pushed_moved s s'"
proof -
  from assms obtain t where
    t: "fold_err (mesh_filter_vertex X ft str fc) node s = Inr t"
    and s': "s' = log_event (EvNodeMarkUpdate node) t"
    by (auto simp: mesh_filter_task_cb_def undo_push_node_pushed split: sum.splits)
  have "only_pushed_moved s t"
    by (rule vertex_loop_moves [OF t assms(2)]) (rule mesh_filter_vertex_moves)
  with s' show ?thesis
    by (auto intro: only_pushed_moved_trans log_event_moves)
qed

lemma displace_task_cb_moves:
  assumes "mesh_filter_surface_smooth_displace_task_cb X str fc s node = Inr s'"
    and "\<forall>v \<in> set node. undo s v \<noteq> None"
  shows "only_pushed_moved s s'"
  by (rule vertex_loop_moves
        [OF assms(1) [unfolded mesh_filter_surface_smooth_displace_task_cb_def] assms(2)])
     (rule displace_vertex_moves)

lemma node_loop_moves:
  assumes "fold_err f ns s = Inr s'"
    and "nodes_pushed ns s"
    and "\<And>a node b. f a node = Inr b \<Longrightarrow> \<forall>v \<in> set node. undo a v \<noteq> None \<Longrightarrow>
           only_pushed_moved a b"
  shows "only_pushed_moved s s'"
proof (rule fold_err_invariant_set [OF assms(1), where P = "only_pushed_moved s"])
  show "only_pushed_moved s s" by (rule only_pushed_moved_refl)
next
  fix a x b
  assume x: "x \<in> set ns" and step: "f a x = Inr b" and a: "only_pushed_moved s a"
  from a x assms(2) have "\<forall>v \<in> set x. undo a v \<noteq> None"
    by (simp add: only_pushed_moved_def nodes_pushed_def)
  from assms(3) [OF step this] a show "only_pushed_moved s b"
    by (rule only_pushed_moved_trans [rotated])
qed

lemma apply_moves:
  assumes "sculpt_mesh_filter_apply X op ss = Inr ss'"
    and "filter_cache ss = Some fc"
    and "nodes_pushed (nodes fc) ss"
  shows "only_pushed_moved ss ss' \<and>
         filter_cache ss' = Some (fc\<lparr>iteration_count := iteration_count fc + 1\<rparr>)"
proof -
  define ss0 where "ss0 = (let s = log_event EvVertexRandomAccessEnsure ss in
     if rna_type op = MESH_FILTER_SURFACE_SMOOTH
     then log_event EvSurfaceSmoothLaplacianInit s else s)"
  have m0: "only_pushed_moved ss ss0"
    by (simp add: ss0_def Let_def only_pushed_moved_def)
  from assms(1,2) obtain ss1 ss2 where
    p1: "fold_err (mesh_filter_task_cb X (rna_type op) (rna_strength op) fc) (nodes fc) ss0 = Inr ss1"
    and p2: "(if rna_type op = MESH_FILTER_SURFACE_SMOOTH
              then fold_err (mesh_filter_surface_smooth_displace_task_cb X (rna_strength op) fc)
                     (nodes fc) ss1
              else Inr ss1) = Inr ss2"
    and fin: "only_pushed_moved ss2 ss'"
      "filter_cache ss' = Some (fc\<lparr>iteration_count := iteration_count fc + 1\<rparr>)"
    by (auto simp: sculpt_mesh_filter_apply_def ss0_def Let_def only_pushed_moved_def log_event_def
        split: sum.splits if_splits)
  from m0 assms(3) have n0: "nodes_pushed (nodes fc) ss0"
    by (simp add: nodes_pushed_def only_pushed_moved_def)
  have m1: "only_pushed_moved ss0 ss1"
    by (rule node_loop_moves [OF p1 n0]) (rule mesh_filter_task_cb_moves)
  with n0 have n1: "nodes_pushed (nodes fc) ss1"
    by (simp add: nodes_pushed_def only_pushed_moved_def)
  have m2: "only_pushed_moved ss1 ss2"
  proof (cases "rna_type op = MESH_FILTER_SURFACE_SMOOTH")
    case True
    with p2 have "fold_err (mesh_filter_surface_smooth_displace_task_cb X (rna_strength op) fc)
                     (nodes fc) ss1 = Inr ss2" by simp
    then show ?thesis
      by (rule node_loop_moves [OF _ n1]) (rule displace_task_cb_moves)
  next
    case False
    with p2 show ?thesis by (simp add: only_pushed_moved_refl)
  qed
  from m0 m1 m2 fin show ?thesis
    by (blast intro: only_pushed_moved_trans)
qed

lemma apply_all_moves:
  assumes "sculpt_mesh_filter_apply_all X ops ss = Inr ss'"
    and "filter_cache ss = Some fc"
    and "nodes_pushed (nodes fc) ss"
  shows "only_pushed_moved ss ss'"
  using assms
proof (induction ops arbitrary: ss fc)
  case Nil
  then show ?case by (simp add: only_pushed_moved_refl)
next
  case (Cons op ops)
  from Cons.prems(1) obtain t where t: "sculpt_mesh_filter_apply X op ss = Inr t"
    and r: "sculpt_mesh_filter_apply_all X ops t = Inr ss'"
    by (auto split: sum.splits)
  from apply_moves [OF t Cons.prems(2,3)] have
    m: "only_pushed_moved ss t"
    and c: "filter_cache t = Some (fc\<lparr>iteration_count := iteration_count fc + 1\<rparr>)"
    by simp_all
  from m Cons.prems(3)
  have "nodes_pushed (nodes (fc\<lparr>iteration_count := iteration_count fc + 1\<rparr>)) t"
    by (simp add: nodes_pushed_def only_pushed_moved_def)
  from Cons.IH [OF r c this] m show ?case
    by (blast intro: only_pushed_moved_trans)
qed

lemma fold_establish:
  assumes "P s"
    and "\<And>x a. P a \<Longrightarrow> P (f x a)"
    and "\<And>x a w. P a \<Longrightarrow> G w a \<Longrightarrow> G w (f x a)"
    and "\<And>x a. P a \<Longrightarrow> H x (f x a)"
    and "\<And>x y a. P a \<Longrightarrow> H x a \<Longrightarrow> H x (f y a)"
  shows "P (fold f xs s) \<and> (\<forall>w. G w s \<longrightarrow> G w (fold f xs s)) \<and>
         (\<forall>x \<in> set xs. H x (fold f xs s))"
  using assms(1)
proof (induction xs arbitrary: s)
  case Nil
  then show ?case by simp
next
  case (Cons x xs)
  have p: "P (f x s)" by (rule assms(2) [OF Cons.prems])
  note ih = Cons.IH [OF p]
  have keepH: "H x (fold f xs (f x s))"
  proof -
    have "H x (f x s)" by (rule assms(4) [OF Cons.prems])
    moreover have "\<And>t. P t \<Longrightarrow> H x t \<Longrightarrow> H x (fold f xs t)"
    proof -
      fix t show "P t \<Longrightarrow> H x t \<Longrightarrow> H x (fold f xs t)"
      proof (induction xs arbitrary: t)
        case Nil
        then show ?case by simp
      next
        case (Cons y ys)
        then show ?case by (simp add: assms(2) assms(5))
      qed
    qed
    ultimately show ?thesis using p by blast
  qed
  from ih keepH assms(3) [OF Cons.prems] show ?case by auto
qed

lemma push_node_snapshot_ok:
  assumes "snapshot_ok co0 s"
  shows "snapshot_ok co0 (SCULPT_undo_push_node s node)"
  unfolding snapshot_ok_def
proof (intro conjI allI)
  show "length (vert_co (SCULPT_undo_push_node s node)) = length co0"
    using assms by (simp add: snapshot_ok_def)
next
  fix v
  from assms have v: "case undo s v of Some p \<Rightarrow> fst p = co0 ! v | None \<Rightarrow> vert_co s ! v = co0 ! v"
    by (simp add: snapshot_ok_def)
  show "case undo (SCULPT_undo_push_node s node) v of
          Some p \<Rightarrow> fst p = co0 ! v
        | None \<Rightarrow> vert_co (SCULPT_undo_push_node s node) ! v = co0 ! v"
  proof (cases "undo s v")
    case None
    with v show ?thesis by (simp add: SCULPT_undo_push_node_def)
  next
    case (Some p)
    with v show ?thesis by (simp add: SCULPT_undo_push_node_def)
  qed
qed


lemma cancel_restore_vertex_ok:
  assumes "snapshot_ok co0 s"
  shows "snapshot_ok co0 (cancel_restore_vertex v s)"
  unfolding snapshot_ok_def
proof (intro conjI allI)
  show "length (vert_co (cancel_restore_vertex v s)) = length co0"
    using assms by (simp add: snapshot_ok_def cancel_restore_vertex_def)
next
  fix u
  from assms have u: "case undo s u of Some p \<Rightarrow> fst p = co0 ! u | None \<Rightarrow> vert_co s ! u = co0 ! u"
    by (simp add: snapshot_ok_def)
  show "case undo (cancel_restore_vertex v s) u of
          Some p \<Rightarrow> fst p = co0 ! u
        | None \<Rightarrow> vert_co (cancel_restore_vertex v s) ! u = co0 ! u"
  proof (cases "undo s u")
    case None
    show ?thesis
    proof (cases "u = v")
      case True
      with None have "fst (SCULPT_orig_vert_data s v) = vert_co s ! v"
        by (simp add: SCULPT_orig_vert_data_def)
      moreover from None u True have "vert_co s ! v = co0 ! v" by simp
      then have "(vert_co s)[v := co0 ! v] = vert_co s"
        by (metis list_update_id)
      ultimately show ?thesis using None u True
        by (simp add: cancel_restore_vertex_def)
    next
      case False
      with None u show ?thesis by (simp add: cancel_restore_vertex_def)
    qed
  next
    case (Some p)
    with u show ?thesis by (simp add: cancel_restore_vertex_def)
  qed
qed

lemma orig_vert_data_snapshot:
  assumes "snapshot_ok co0 s"
  shows "fst (SCULPT_orig_vert_data s v) = co0 ! v"
  using assms [unfolded snapshot_ok_def, THEN conjunct2, THEN spec, of v]
  by (auto simp: SCULPT_orig_vert_data_def split: option.splits)

lemma cancel_restore_vertex_restores:
  assumes "snapshot_ok co0 s"
  shows "vertex_restored co0 v (cancel_restore_vertex v s)"
  using assms orig_vert_data_snapshot [OF assms, of v]
  by (simp add: vertex_restored_def cancel_restore_vertex_def snapshot_ok_def)

lemma cancel_restore_vertex_keeps:
  assumes "snapshot_ok co0 s" and "vertex_restored co0 w s"
  shows "vertex_restored co0 w (cancel_restore_vertex v s)"
proof (cases "w = v")
  case True
  then show ?thesis using cancel_restore_vertex_restores [OF assms(1)] by simp
next
  case False
  with assms(2) show ?thesis
    by (simp add: vertex_restored_def cancel_restore_vertex_def)
qed

lemma cancel_restore_node_props:
  assumes "snapshot_ok co0 s"
  shows "snapshot_ok co0 (cancel_restore_node node s)"
    and "vertex_restored co0 w s \<Longrightarrow> vertex_restored co0 w (cancel_restore_node node s)"
    and "\<forall>v \<in> set node. vertex_restored co0 v (cancel_restore_node node s)"
proof -
  let ?s1 = "SCULPT_undo_push_node s node"
  have ok1: "snapshot_ok co0 ?s1" by (rule push_node_snapshot_ok [OF assms])
  have f: "snapshot_ok co0 (fold cancel_restore_vertex node ?s1) \<and>
        (\<forall>w. vertex_restored co0 w ?s1 \<longrightarrow> vertex_restored co0 w (fold cancel_restore_vertex node ?s1)) \<and>
        (\<forall>v \<in> set node. vertex_restored co0 v (fold cancel_restore_vertex node ?s1))"
    by (rule fold_establish [where P = "snapshot_ok co0" and G = "vertex_restored co0"
          and H = "vertex_restored co0", OF ok1])
       (simp_all add: cancel_restore_vertex_ok cancel_restore_vertex_restores
          cancel_restore_vertex_keeps)
  have l: "\<And>t. snapshot_ok co0 (log_event (EvNodeMarkUpdate node) t) = snapshot_ok co0 t"
    "\<And>t u. vertex_restored co0 u (log_event (EvNodeMarkUpdate node) t) = vertex_restored co0 u t"
    by (simp_all add: snapshot_ok_def vertex_restored_def cong: option.case_cong)
  from f show "snapshot_ok co0 (cancel_restore_node node s)"
    by (simp add: cancel_restore_node_def l)
  have r1: "vertex_restored co0 w s \<Longrightarrow> vertex_restored co0 w ?s1"
    by (simp add: vertex_restored_def)
  from f r1 show "vertex_restored co0 w s \<Longrightarrow> vertex_restored co0 w (cancel_restore_node node s)"
    by (simp add: cancel_restore_node_def l)
  from f show "\<forall>v \<in> set node. vertex_restored co0 v (cancel_restore_node node s)"
    by (simp add: cancel_restore_node_def l)
qed

lemma cancel_restores_snapshot:
  assumes "snapshot_ok co0 s" and "pbvh s = Some leaves"
    and "\<forall>v. undo s v \<noteq> None \<longrightarrow> (\<exists>node \<in> set leaves. v \<in> set node)"
  shows "vert_co (sculpt_mesh_filter_cancel s) = co0"
proof -
  let ?t = "fold cancel_restore_node leaves s"
  have f: "snapshot_ok co0 ?t \<and>
        (\<forall>w. vertex_restored co0 w s \<longrightarrow> vertex_restored co0 w ?t) \<and>
        (\<forall>node \<in> set leaves. (\<forall>v \<in> set node. vertex_restored co0 v ?t))"
  proof (rule fold_establish [where P = "snapshot_ok co0" and G = "vertex_restored co0"
          and H = "\<lambda>node t. \<forall>v \<in> set node. vertex_restored co0 v t", OF assms(1)])
    fix x a assume "snapshot_ok co0 a"
    then show "snapshot_ok co0 (cancel_restore_node x a)"
      by (rule cancel_restore_node_props(1))
  next
    fix x a w assume "snapshot_ok co0 a" "vertex_restored co0 w a"
    then show "vertex_restored co0 w (cancel_restore_node x a)"
      by (rule cancel_restore_node_props(2))
  next
    fix x a assume "snapshot_ok co0 a"
    then show "\<forall>v \<in> set x. vertex_restored co0 v (cancel_restore_node x a)"
      by (rule cancel_restore_node_props(3))
  next
    fix x y a assume a: "snapshot_ok co0 a" and h: "\<forall>v \<in> set x. vertex_restored co0 v a"
    show "\<forall>v \<in> set x. vertex_restored co0 v (cancel_restore_node y a)"
      using cancel_restore_node_props(2) [OF a] h by blast
  qed
  have len: "length (vert_co ?t) = length co0"
    using f by (simp add: snapshot_ok_def)
  have "\<forall>v < length co0. vert_co ?t ! v = co0 ! v"
  proof (intro allI impI)
    fix v assume v: "v < length co0"
    show "vert_co ?t ! v = co0 ! v"
    proof (cases "\<exists>node \<in> set leaves. v \<in> set node")
      case True
      with f v show ?thesis by (auto simp: vertex_restored_def)
    next
      case False
      with assms(3) have "undo s v = None" by blast
      with assms(1) have "vert_co s ! v = co0 ! v"
        using assms(1) [unfolded snapshot_ok_def, THEN conjunct2, THEN spec, of v] by simp
      then have "vertex_restored co0 v s" by (simp add: vertex_restored_def)
      with f v show ?thesis by (simp add: vertex_restored_def)
    qed
  qed
  with len have "vert_co ?t = co0"
    by (simp add: list_eq_iff_nth_eq)
  with assms(2) show ?thesis
    by (simp add: sculpt_mesh_filter_cancel_def)
qed

lemma fold_push_fields:
  "vert_co (fold (\<lambda>node s. SCULPT_undo_push_node s node) ns s) = vert_co s \<and>
   vert_no (fold (\<lambda>node s. SCULPT_undo_push_node s node) ns s) = vert_no s \<and>
   pbvh (fold (\<lambda>node s. SCULPT_undo_push_node s node) ns s) = pbvh s"
  by (induction ns arbitrary: s) simp_all

lemma fold_push_undo:
  "undo (fold (\<lambda>node s. SCULPT_undo_push_node s node) ns s) v =
     (if \<exists>node \<in> set ns. v \<in> set node
      then (case undo s v of None \<Rightarrow> Some (vert_co s ! v, vert_no s ! v) | Some p \<Rightarrow> Some p)
      else undo s v)"
proof (induction ns arbitrary: s)
  case Nil
  then show ?case by simp
next
  case (Cons n ns)
  show ?case
    by (simp add: Cons.IH) (auto simp: SCULPT_undo_push_node_def split: option.splits)
qed

lemma fold_log_fields:
  "vert_co (fold (\<lambda>node. log_event (g node)) ns s) = vert_co s \<and>
   vert_no (fold (\<lambda>node. log_event (g node)) ns s) = vert_no s \<and>
   pbvh (fold (\<lambda>node. log_event (g node)) ns s) = pbvh s \<and>
   undo (fold (\<lambda>node. log_event (g node)) ns s) = undo s"
  by (induction ns arbitrary: s) simp_all

lemma filter_cache_init_establishes:
  assumes "SCULPT_filter_cache_init X s strength = Inr s'" and "undo s = Map.empty"
  shows "\<exists>fc leaves. filter_cache s' = Some fc \<and> pbvh s' = Some leaves \<and>
           set (nodes fc) \<subseteq> set leaves \<and> vert_co s' = vert_co s \<and>
           (\<forall>v. undo s' v =
              (if \<exists>node \<in> set (nodes fc). v \<in> set node
               then Some (vert_co s ! v, vert_no s ! v) else None))"
  using assms
  by (auto simp: SCULPT_filter_cache_init_def Let_def fold_push_fields fold_push_undo
      fold_log_fields split: option.splits)

lemma start_configure_cache_nodes:
  "nodes (start_configure_cache X op s fc) = nodes fc"
  by (cases "rna_type op")
     (simp_all add: start_configure_cache_def mesh_filter_surface_smooth_init_def
        mesh_filter_sharpen_init_def mesh_filter_enhance_details_init_directions_def
        mesh_filter_init_limit_surface_co_def Let_def)

lemma start_prepare_fields:
  "undo (start_prepare X b s) = Map.empty"
  "vert_co (start_prepare X b s) = vert_co s"
  "vert_no (start_prepare X b s) = vert_no s"
  by (simp_all add: start_prepare_def SCULPT_undo_push_begin_def Let_def)

lemma start_establishes:
  assumes "sculpt_mesh_filter_start X op ss = Inr (OPERATOR_PASS_THROUGH, ss1)"
  shows "\<exists>fc leaves. filter_cache ss1 = Some fc \<and> pbvh ss1 = Some leaves \<and>
           set (nodes fc) \<subseteq> set leaves \<and> vert_co ss1 = vert_co ss \<and>
           (\<forall>v. undo ss1 v =
              (if \<exists>node \<in> set (nodes fc). v \<in> set node
               then Some (vert_co ss ! v, vert_no ss ! v) else None))"
proof -
  let ?b = "sculpt_mesh_filter_needs_pmap (rna_type op) \<or> is_automasking_enabled X"
  let ?s5 = "start_prepare X ?b (log_event (EvUpdateObjectForEdit ?b) ss)"
  from assms obtain ss6 fc0 where
    i: "SCULPT_filter_cache_init X ?s5 (rna_strength op) = Inr ss6"
    and f0: "filter_cache ss6 = Some fc0"
    and s1: "ss1 = ss6\<lparr>filter_cache := Some (start_configure_cache X op ss6 fc0)\<rparr>"
    by (auto simp: sculpt_mesh_filter_start_def Let_def
        split: if_splits sum.splits option.splits)
  from filter_cache_init_establishes [OF i start_prepare_fields(1)] f0 obtain leaves where
    "pbvh ss6 = Some leaves" "set (nodes fc0) \<subseteq> set leaves" "vert_co ss6 = vert_co ?s5"
    "\<forall>v. undo ss6 v =
              (if \<exists>node \<in> set (nodes fc0). v \<in> set node
               then Some (vert_co ?s5 ! v, vert_no ?s5 ! v) else None)"
    by auto
  with s1 show ?thesis
    by (simp add: start_configure_cache_nodes start_prepare_fields)
qed


text \<open>
  C2. After a successful start and any number of iterations, of any filter types and
  strengths, \<open>sculpt_mesh_filter_cancel\<close> leaves every vertex at the position it had
  before the start.
\<close>

theorem cancel_restores_positions:
  assumes "sculpt_mesh_filter_start X op ss = Inr (OPERATOR_PASS_THROUGH, ss1)"
    and "sculpt_mesh_filter_apply_all X ops ss1 = Inr ss2"
  shows "vert_co (sculpt_mesh_filter_cancel ss2) = vert_co ss"
proof -
  from start_establishes [OF assms(1)] obtain fc leaves where
    fc: "filter_cache ss1 = Some fc" and lv: "pbvh ss1 = Some leaves"
    and sub: "set (nodes fc) \<subseteq> set leaves" and co: "vert_co ss1 = vert_co ss"
    and un: "\<forall>v. undo ss1 v =
              (if \<exists>node \<in> set (nodes fc). v \<in> set node
               then Some (vert_co ss ! v, vert_no ss ! v) else None)"
    by blast
  have np: "nodes_pushed (nodes fc) ss1"
    unfolding nodes_pushed_def
  proof (intro ballI)
    fix node v
    assume "node \<in> set (nodes fc)" "v \<in> set node"
    then have "\<exists>node \<in> set (nodes fc). v \<in> set node" by blast
    with un show "undo ss1 v \<noteq> None" by simp
  qed
  from apply_all_moves [OF assms(2) fc np] have m: "only_pushed_moved ss1 ss2" .
  have ok: "snapshot_ok (vert_co ss) ss2"
    unfolding snapshot_ok_def
  proof (intro conjI allI)
    from m co show "length (vert_co ss2) = length (vert_co ss)"
      by (simp add: only_pushed_moved_def)
  next
    fix v
    show "case undo ss2 v of Some p \<Rightarrow> fst p = vert_co ss ! v
          | None \<Rightarrow> vert_co ss2 ! v = vert_co ss ! v"
    proof (cases "\<exists>node \<in> set (nodes fc). v \<in> set node")
      case True
      with un m show ?thesis by (simp add: only_pushed_moved_def)
    next
      case False
      with un have "undo ss1 v = None" by simp
      with m co show ?thesis by (simp add: only_pushed_moved_def)
    qed
  qed
  from m lv have lv2: "pbvh ss2 = Some leaves"
    by (simp add: only_pushed_moved_def)
  have dom: "\<forall>v. undo ss2 v \<noteq> None \<longrightarrow> (\<exists>node \<in> set leaves. v \<in> set node)"
  proof (intro allI impI)
    fix v assume "undo ss2 v \<noteq> None"
    with m have "undo ss1 v \<noteq> None" by (simp add: only_pushed_moved_def)
    with un have "\<exists>node \<in> set (nodes fc). v \<in> set node"
      by (cases "\<exists>node \<in> set (nodes fc). v \<in> set node") simp_all
    with sub show "\<exists>node \<in> set leaves. v \<in> set node" by blast
  qed
  from cancel_restores_snapshot [OF ok lv2 dom] show ?thesis .
qed

text \<open>
  The three vertices: start, one iteration of the smooth filter (which moves
  vertices), cancel.
\<close>

theorem cancel_restores_positions_witness:
  "sculpt_mesh_filter_start ref_collab (filter_op MESH_FILTER_SMOOTH 1) path3_state =
     Inr (OPERATOR_PASS_THROUGH, path3_started MESH_FILTER_SMOOTH 1) \<and>
   (case sculpt_mesh_filter_apply_all ref_collab [filter_op MESH_FILTER_SMOOTH 1]
           (path3_started MESH_FILTER_SMOOTH 1) of
      Inr ss2 \<Rightarrow>
        vert_co ss2 \<noteq> vert_co path3_state \<and>
        vert_co (sculpt_mesh_filter_cancel ss2) = [(0, 0, 0), (1, 0, 0), (3, 0, 0)]
    | Inl e \<Rightarrow> False)"
proof -
  let ?ops = "[filter_op MESH_FILTER_SMOOTH 1]"
  have a: "sculpt_mesh_filter_start ref_collab (filter_op MESH_FILTER_SMOOTH 1) path3_state =
          Inr (OPERATOR_PASS_THROUGH, path3_started MESH_FILTER_SMOOTH 1)"
    by (simp add: run_defs)
  have "\<exists>ss2. sculpt_mesh_filter_apply_all ref_collab ?ops (path3_started MESH_FILTER_SMOOTH 1) = Inr ss2 \<and>
           vert_co ss2 \<noteq> vert_co path3_state"
    by (simp add: run_defs)
  then obtain ss2 where
    b: "sculpt_mesh_filter_apply_all ref_collab ?ops (path3_started MESH_FILTER_SMOOTH 1) = Inr ss2"
    and c: "vert_co ss2 \<noteq> vert_co path3_state"
    by blast
  from cancel_restores_positions [OF a b]
  have "vert_co (sculpt_mesh_filter_cancel ss2) = [(0, 0, 0), (1, 0, 0), (3, 0, 0)]"
    by (simp add: path3_state_def)
  with a b c show ?thesis by simp
qed


subsection \<open>The two passes of the surface smooth filter\<close>

text \<open>
  The first pass never skips a vertex and never fails for surface smooth: it stores an
  estimate for every vertex it visits, whatever the fade. The second pass never fails
  and writes no estimate.
\<close>

lemma surface_smooth_vertex_total:
  "\<exists>p l. mesh_filter_final_pos X MESH_FILTER_SURFACE_SMOOTH str fc s v = Inr (Some (p, Some l))"
proof -
  obtain disp lap where
    "surface_smooth_laplacian_step X (vert_co s) (vert_co s ! v) v
       (fst (SCULPT_orig_vert_data s v)) 1 = (disp, lap)"
    by (rule prod.exhaust)
  then have "mesh_filter_final_pos X MESH_FILTER_SURFACE_SMOOTH str fc s v =
     Inr (Some (madd_v3_v3v3fl (vert_co s ! v) (filter_axis_displacement fc disp)
                  (clamp_f (vertex_fade fc s str v) 0 1), Some lap))"
    by (simp add: mesh_filter_final_pos_def mesh_filter_displacement_def Let_def ELEM_def)
  then show ?thesis by blast
qed

lemma surface_smooth_vertex_stores:
  "\<exists>s'. mesh_filter_vertex X MESH_FILTER_SURFACE_SMOOTH str fc s v = Inr s' \<and>
        v \<in> dom (laplacian_disp s') \<and>
        dom (laplacian_disp s) \<subseteq> dom (laplacian_disp s')"
proof -
  from surface_smooth_vertex_total [of X str fc s v] obtain p l where
    "mesh_filter_final_pos X MESH_FILTER_SURFACE_SMOOTH str fc s v = Inr (Some (p, Some l))"
    by blast
  then show ?thesis by (auto simp: mesh_filter_vertex_def)
qed

lemma surface_smooth_vertices_store:
  "\<exists>s'. fold_err (mesh_filter_vertex X MESH_FILTER_SURFACE_SMOOTH str fc) node s = Inr s' \<and>
        set node \<subseteq> dom (laplacian_disp s') \<and>
        dom (laplacian_disp s) \<subseteq> dom (laplacian_disp s')"
proof (induction node arbitrary: s)
  case Nil
  then show ?case by simp
next
  case (Cons v vs)
  from surface_smooth_vertex_stores [of X str fc s v] obtain t where
    t: "mesh_filter_vertex X MESH_FILTER_SURFACE_SMOOTH str fc s v = Inr t"
    and tv: "v \<in> dom (laplacian_disp t)"
    and tk: "dom (laplacian_disp s) \<subseteq> dom (laplacian_disp t)"
    by blast
  from Cons.IH [of t] obtain s' where
    s': "fold_err (mesh_filter_vertex X MESH_FILTER_SURFACE_SMOOTH str fc) vs t = Inr s'"
    and sv: "set vs \<subseteq> dom (laplacian_disp s')"
    and sk: "dom (laplacian_disp t) \<subseteq> dom (laplacian_disp s')"
    by blast
  have "fold_err (mesh_filter_vertex X MESH_FILTER_SURFACE_SMOOTH str fc) (v # vs) s = Inr s'"
    using t s' by simp
  moreover have "v \<in> dom (laplacian_disp s')" using tv sk by (rule subsetD [rotated])
  with sv have "set (v # vs) \<subseteq> dom (laplacian_disp s')" by simp
  moreover have "dom (laplacian_disp s) \<subseteq> dom (laplacian_disp s')"
    using tk sk by (rule subset_trans)
  ultimately show ?case by blast
qed

lemma surface_smooth_task_cb_stores:
  "\<exists>s'. mesh_filter_task_cb X MESH_FILTER_SURFACE_SMOOTH str fc s node = Inr s' \<and>
        set node \<subseteq> dom (laplacian_disp s') \<and>
        dom (laplacian_disp s) \<subseteq> dom (laplacian_disp s')"
proof -
  from surface_smooth_vertices_store [of X str fc node "SCULPT_undo_push_node s node"]
  obtain t where
    "fold_err (mesh_filter_vertex X MESH_FILTER_SURFACE_SMOOTH str fc) node
       (SCULPT_undo_push_node s node) = Inr t"
    "set node \<subseteq> dom (laplacian_disp t)"
    "dom (laplacian_disp (SCULPT_undo_push_node s node)) \<subseteq> dom (laplacian_disp t)"
    by blast
  then show ?thesis by (simp add: mesh_filter_task_cb_def)
qed

lemma surface_smooth_pass_stores:
  "\<exists>s'. fold_err (mesh_filter_task_cb X MESH_FILTER_SURFACE_SMOOTH str fc) ns s = Inr s' \<and>
        laplacian_stored ns s' \<and>
        dom (laplacian_disp s) \<subseteq> dom (laplacian_disp s')"
proof (induction ns arbitrary: s)
  case Nil
  then show ?case by (simp add: laplacian_stored_def)
next
  case (Cons n ns)
  from surface_smooth_task_cb_stores [of X str fc s n] obtain t where
    t: "mesh_filter_task_cb X MESH_FILTER_SURFACE_SMOOTH str fc s n = Inr t"
    and tv: "set n \<subseteq> dom (laplacian_disp t)"
    and tk: "dom (laplacian_disp s) \<subseteq> dom (laplacian_disp t)"
    by blast
  from Cons.IH [of t] obtain s' where
    s': "fold_err (mesh_filter_task_cb X MESH_FILTER_SURFACE_SMOOTH str fc) ns t = Inr s'"
    and sv: "laplacian_stored ns s'"
    and sk: "dom (laplacian_disp t) \<subseteq> dom (laplacian_disp s')"
    by blast
  have "fold_err (mesh_filter_task_cb X MESH_FILTER_SURFACE_SMOOTH str fc) (n # ns) s = Inr s'"
    using t s' by simp
  moreover have "set n \<subseteq> dom (laplacian_disp s')" using tv sk by (rule subset_trans)
  with sv have "laplacian_stored (n # ns) s'" by (simp add: laplacian_stored_def)
  moreover have "dom (laplacian_disp s) \<subseteq> dom (laplacian_disp s')"
    using tk sk by (rule subset_trans)
  ultimately show ?case by blast
qed

lemma displace_vertex_total:
  "\<exists>s'. surface_smooth_displace_vertex X str fc s v = Inr s' \<and>
        laplacian_disp s' = laplacian_disp s"
  by (simp add: surface_smooth_displace_vertex_def Let_def)

lemma displace_vertices_total:
  "\<exists>s'. fold_err (surface_smooth_displace_vertex X str fc) node s = Inr s' \<and>
        laplacian_disp s' = laplacian_disp s"
proof (induction node arbitrary: s)
  case Nil
  then show ?case by simp
next
  case (Cons v vs)
  from displace_vertex_total [of X str fc s v] obtain t where
    t: "surface_smooth_displace_vertex X str fc s v = Inr t" "laplacian_disp t = laplacian_disp s"
    by blast
  from Cons.IH [of t] t show ?case by auto
qed

lemma displace_pass_total:
  "\<exists>s'. fold_err (mesh_filter_surface_smooth_displace_task_cb X str fc) ns s = Inr s' \<and>
        laplacian_disp s' = laplacian_disp s"
proof (induction ns arbitrary: s)
  case Nil
  then show ?case by simp
next
  case (Cons n ns)
  from displace_vertices_total [of X str fc n s] obtain t where
    t: "mesh_filter_surface_smooth_displace_task_cb X str fc s n = Inr t"
       "laplacian_disp t = laplacian_disp s"
    by (auto simp: mesh_filter_surface_smooth_displace_task_cb_def)
  from Cons.IH [of t] t show ?case by auto
qed


text \<open>
  On the nodes of the cache the two passes follow each other: one call returns, the
  first pass stores an estimate for every vertex of every gathered node (vertices with
  fade 0 included), and the second pass starts from that session and leaves the buffer
  as the first pass left it.
\<close>

lemma surface_smooth_gathered_nodes:
  assumes "rna_type op = MESH_FILTER_SURFACE_SMOOTH" and "filter_cache ss = Some fc"
  shows "\<exists>ss1 ss2 ss'.
           fold_err (mesh_filter_task_cb X MESH_FILTER_SURFACE_SMOOTH (rna_strength op) fc) (nodes fc)
             (log_event EvSurfaceSmoothLaplacianInit (log_event EvVertexRandomAccessEnsure ss)) =
             Inr ss1 \<and>
           laplacian_stored (nodes fc) ss1 \<and>
           fold_err (mesh_filter_surface_smooth_displace_task_cb X (rna_strength op) fc) (nodes fc) ss1 =
             Inr ss2 \<and>
           laplacian_disp ss2 = laplacian_disp ss1 \<and>
           sculpt_mesh_filter_apply X op ss = Inr ss' \<and>
           vert_co ss' = vert_co ss2 \<and> laplacian_disp ss' = laplacian_disp ss1"
proof -
  let ?s0 = "log_event EvSurfaceSmoothLaplacianInit (log_event EvVertexRandomAccessEnsure ss)"
  from surface_smooth_pass_stores [of X "rna_strength op" fc "nodes fc" ?s0] obtain ss1 where
    p1: "fold_err (mesh_filter_task_cb X MESH_FILTER_SURFACE_SMOOTH (rna_strength op) fc) (nodes fc) ?s0
           = Inr ss1"
    and st: "laplacian_stored (nodes fc) ss1"
    by blast
  from displace_pass_total [of X "rna_strength op" fc "nodes fc" ss1] obtain ss2 where
    p2: "fold_err (mesh_filter_surface_smooth_displace_task_cb X (rna_strength op) fc) (nodes fc) ss1
           = Inr ss2"
    and l2: "laplacian_disp ss2 = laplacian_disp ss1"
    by blast
  from assms p1 p2 l2 have
    "\<exists>ss'. sculpt_mesh_filter_apply X op ss = Inr ss' \<and> vert_co ss' = vert_co ss2 \<and>
           laplacian_disp ss' = laplacian_disp ss1"
    by (simp add: sculpt_mesh_filter_apply_def Let_def ELEM_def log_event_def)
  with p1 st p2 l2 show ?thesis by blast
qed

text \<open>
  The three vertices: vertex 1 is fully masked, and the three estimates are stored.
\<close>

lemma surface_smooth_gathered_nodes_example:
  "rna_type (filter_op MESH_FILTER_SURFACE_SMOOTH 1) = MESH_FILTER_SURFACE_SMOOTH \<and>
   filter_cache (path3_started MESH_FILTER_SURFACE_SMOOTH 1) =
     Some (path3_cache MESH_FILTER_SURFACE_SMOOTH 1) \<and>
   nodes (path3_cache MESH_FILTER_SURFACE_SMOOTH 1) = [[0, 1], [2]] \<and>
   vertex_fade (path3_cache MESH_FILTER_SURFACE_SMOOTH 1)
     (path3_started MESH_FILTER_SURFACE_SMOOTH 1) 1 1 = 0 \<and>
   (case sculpt_mesh_filter_apply ref_collab (filter_op MESH_FILTER_SURFACE_SMOOTH 1)
           (path3_started MESH_FILTER_SURFACE_SMOOTH 1) of
      Inl e \<Rightarrow> False
    | Inr ss' \<Rightarrow> {0, 1, 2} \<subseteq> dom (laplacian_disp ss'))"
proof -
  let ?s = "path3_started MESH_FILTER_SURFACE_SMOOTH 1"
  let ?fc = "path3_cache MESH_FILTER_SURFACE_SMOOTH 1"
  let ?op = "filter_op MESH_FILTER_SURFACE_SMOOTH 1"
  have t: "rna_type ?op = MESH_FILTER_SURFACE_SMOOTH"
    by (simp add: filter_op_def)
  have c: "filter_cache ?s = Some ?fc"
    by (simp add: run_defs)
  have n: "nodes ?fc = [[0, 1], [2]]"
    by (simp add: run_defs)
  have f: "vertex_fade ?fc ?s 1 1 = 0"
    by (simp add: run_defs)
  from surface_smooth_gathered_nodes [OF t c, of ref_collab] obtain ss1 ss' where
    st: "laplacian_stored (nodes ?fc) ss1"
    and a: "sculpt_mesh_filter_apply ref_collab ?op ?s = Inr ss'"
    and l: "laplacian_disp ss' = laplacian_disp ss1"
    by blast
  from st n l have "{0, 1, 2} \<subseteq> dom (laplacian_disp ss')"
    by (simp add: laplacian_stored_def)
  with t c n f a show ?thesis by simp
qed


text \<open>
  C6. The claim asks that the first pass stores the estimate of every vertex before the
  second pass reads it, so that no displacement reads an estimate that the first pass
  has not written; the comment at lines 398 to 401 says the same (the estimate is read
  from the neighbours and is needed for all vertices, also those that are not
  displaced). The passes run over the gathered nodes only. On the three vertices with
  vertex 2 masked the leaf \<open>[2]\<close> is not gathered: the first pass stores estimates for
  vertices 0 and 1 and none for vertex 2, and the second pass displaces vertex 1, whose
  neighbours are 0 and 2, from the entry of vertex 2. With no entry vertex 1 ends at
  x = 5/4; with an entry (100, 0, 0) left in the buffer it ends at x = -95/4 and the
  entry is still there. Had the leaf been gathered, the first pass would have stored
  (-1, 0, 0) for vertex 2 and vertex 1 would end at x = 3/2.
\<close>

theorem surface_smooth_reads_unwritten_estimate:
  "pbvh (masked_leaf_started leaf_skipping_collab) = Some [[0, 1], [2]] \<and>
   map_option nodes (filter_cache (masked_leaf_started leaf_skipping_collab)) = Some [[0, 1]] \<and>
   neighbors leaf_skipping_collab 1 = [0, 2] \<and>
   vertex_fade (the (filter_cache (masked_leaf_started leaf_skipping_collab)))
     (masked_leaf_started leaf_skipping_collab) 1 1 = 1 \<and>
   (case sculpt_mesh_filter_apply leaf_skipping_collab (filter_op MESH_FILTER_SURFACE_SMOOTH 1)
           (masked_leaf_started leaf_skipping_collab) of
      Inl e \<Rightarrow> False
    | Inr ss' \<Rightarrow>
        laplacian_disp ss' 0 = Some (1, 0, 0) \<and> laplacian_disp ss' 1 = Some (1, 0, 0) \<and>
        laplacian_disp ss' 2 = None \<and> vert_co ss' ! 1 = (5 / 4, 0, 0)) \<and>
   (case sculpt_mesh_filter_apply leaf_skipping_collab (filter_op MESH_FILTER_SURFACE_SMOOTH 1)
           ((masked_leaf_started leaf_skipping_collab)\<lparr>laplacian_disp := [2 \<mapsto> (100, 0, 0)]\<rparr>) of
      Inl e \<Rightarrow> False
    | Inr ss' \<Rightarrow> laplacian_disp ss' 2 = Some (100, 0, 0) \<and> vert_co ss' ! 1 = (- 95 / 4, 0, 0)) \<and>
   map_option nodes (filter_cache (masked_leaf_started ref_collab)) = Some [[0, 1], [2]] \<and>
   (case sculpt_mesh_filter_apply ref_collab (filter_op MESH_FILTER_SURFACE_SMOOTH 1)
           (masked_leaf_started ref_collab) of
      Inl e \<Rightarrow> False
    | Inr ss' \<Rightarrow> laplacian_disp ss' 2 = Some (- 1, 0, 0) \<and> vert_co ss' ! 1 = (3 / 2, 0, 0))"
  by (simp add: run_defs leaf_skipping_collab_def path3_masked_leaf_state_def
      masked_leaf_started_def)


subsection \<open>The sharpen factor\<close>

lemmas sharpen_defs =
  mesh_filter_sharpen_init_def sharpen_normalize_def sharpen_max_factor_def
  sharpen_smooth_pass_def sharpen_smooth_vertex_def detail_direction_def fdiv_def
  sharpen_detail_lengths_def neighbors_in_range_def factors_bounded_def
  ref_collab_def path3_neighbors_def path3_state_def path3_flat_state_def
  ref_neighbor_average_def Let_def upt_rec real_sqrt_divide

lemma fold_invariant_set:
  assumes "P s" and "\<And>x a. x \<in> set xs \<Longrightarrow> P a \<Longrightarrow> P (f x a)"
  shows "P (fold f xs s)"
  using assms
proof (induction xs arbitrary: s)
  case Nil
  then show ?case by simp
next
  case (Cons x xs)
  have "P (f x s)" using Cons.prems by simp
  then show ?case using Cons.IH [of "f x s"] Cons.prems(2) by simp
qed

lemma funpow_invariant:
  assumes "P s" and "\<And>a. P a \<Longrightarrow> P (f a)"
  shows "P ((f ^^ k) s)"
  using assms by (induction k) simp_all

lemma len_v3_nonneg: "0 \<le> len_v3 v"
  by (cases v) simp

lemma max_loop_props:
  "(m0::real) \<le> fold (\<lambda>f m. if f > m then f else m) fs m0 \<and>
   (\<forall>f \<in> set fs. f \<le> fold (\<lambda>f m. if f > m then f else m) fs m0) \<and>
   (fold (\<lambda>f m. if f > m then f else m) fs m0 = m0 \<or>
    fold (\<lambda>f m. if f > m then f else m) fs m0 \<in> set fs)"
proof (induction fs arbitrary: m0)
  case Nil
  then show ?case by simp
next
  case (Cons f fs)
  let ?m1 = "if f > m0 then f else (m0::real)"
  from Cons.IH [of ?m1] show ?case
    by (auto split: if_splits)
qed

lemma sharpen_max_factor_props:
  "0 \<le> sharpen_max_factor fs"
  "f \<in> set fs \<Longrightarrow> f \<le> sharpen_max_factor fs"
  "sharpen_max_factor fs = 0 \<or> sharpen_max_factor fs \<in> set fs"
  using max_loop_props [of 0 fs] by (simp_all add: sharpen_max_factor_def)

lemma detail_lengths_set:
  "set (sharpen_detail_lengths X ss) =
     (\<lambda>i. len_v3 (detail_direction X ss i)) ` {..<length (vert_co ss)}"
  by (auto simp: sharpen_detail_lengths_def)

lemma max_factor_pos:
  assumes "i < length (vert_co ss)" and "len_v3 (detail_direction X ss i) \<noteq> 0"
  shows "0 < sharpen_max_factor (sharpen_detail_lengths X ss)"
proof -
  from assms(2) len_v3_nonneg [of "detail_direction X ss i"]
  have "0 < len_v3 (detail_direction X ss i)" by simp
  moreover from assms(1) have "len_v3 (detail_direction X ss i) \<in> set (sharpen_detail_lengths X ss)"
    by (auto simp: detail_lengths_set)
  then have "len_v3 (detail_direction X ss i) \<le> sharpen_max_factor (sharpen_detail_lengths X ss)"
    by (rule sharpen_max_factor_props(2))
  ultimately show ?thesis by simp
qed

lemma max_factor_zero:
  assumes "\<forall>i < length (vert_co ss). len_v3 (detail_direction X ss i) = 0"
  shows "sharpen_max_factor (sharpen_detail_lengths X ss) = 0"
  using sharpen_max_factor_props(3) [of "sharpen_detail_lengths X ss"] assms
  by (auto simp: detail_lengths_set)

lemma normalize_zero_max:
  assumes "sharpen_max_factor fs = 0"
  shows "sharpen_normalize fs = replicate (length fs) None"
  using assms
  by (simp add: sharpen_normalize_def fdiv_def Let_def map_replicate_const)

text \<open>Smoothing keeps a buffer without a finite entry as it is.\<close>

lemma fadd_loop_None:
  "fold (\<lambda>n acc. fadd acc (g n)) ns None = None"
  by (induction ns) simp_all

lemma fadd_loop_all_None:
  assumes "ns \<noteq> []" and "\<forall>n \<in> set ns. g n = None"
  shows "fold (\<lambda>n acc. fadd acc (g n)) ns a = None"
proof -
  from assms(1) obtain n ns' where ns: "ns = n # ns'" by (cases ns) auto
  with assms(2) have "g n = None" by simp
  then show ?thesis by (cases a) (simp_all add: ns fadd_loop_None)
qed

lemma neighbors_in_rangeD:
  "neighbors_in_range X n \<Longrightarrow> i < n \<Longrightarrow> j \<in> set (neighbors X i) \<Longrightarrow> j < n"
  by (auto simp: neighbors_in_range_def list_all_iff)

lemma smooth_vertex_nonfinite:
  assumes "all_nonfinite n st" and "neighbors_in_range X n" and "i < n"
  shows "all_nonfinite n (sharpen_smooth_vertex X i st)"
proof -
  obtain ds fs where st: "st = (ds, fs)" by (cases st)
  from assms(1) st have len: "length fs = n" and none: "\<forall>k < n. fs ! k = None"
    by (simp_all add: all_nonfinite_def)
  show ?thesis
  proof (cases "neighbors X i = []")
    case True
    with assms(1) st show ?thesis
      by (simp add: sharpen_smooth_vertex_def)
  next
    case False
    from none assms(2,3) have "\<forall>j \<in> set (neighbors X i). fs ! j = None"
      by (auto dest: neighbors_in_rangeD)
    from fadd_loop_all_None [OF False this]
    have "fold (\<lambda>n acc. fadd acc (fs ! n)) (neighbors X i) (Some 0) = None" .
    with False len none assms(3) show ?thesis
      by (auto simp: sharpen_smooth_vertex_def st all_nonfinite_def Let_def nth_list_update)
  qed
qed

lemma smooth_pass_nonfinite:
  assumes "all_nonfinite n st" and "neighbors_in_range X n"
  shows "all_nonfinite n (sharpen_smooth_pass X n st)"
  unfolding sharpen_smooth_pass_def
  by (rule fold_invariant_set [where P = "all_nonfinite n", OF assms(1)])
     (simp add: smooth_vertex_nonfinite assms(2))

lemma sharpen_init_factor:
  "sharpen_factor (mesh_filter_sharpen_init X ss fc r d k) =
     snd ((sharpen_smooth_pass X (length (vert_co ss)) ^^ nat k)
            (map (detail_direction X ss) [0..<length (vert_co ss)],
             sharpen_normalize (sharpen_detail_lengths X ss)))"
  by (simp add: mesh_filter_sharpen_init_def sharpen_detail_lengths_def Let_def)

lemma all_nonfinite_iff:
  "all_nonfinite n st \<longleftrightarrow> snd st = replicate n None"
  by (auto simp: all_nonfinite_def list_eq_iff_nth_eq)


lemma factors_bounded_iff:
  "factors_bounded fs \<longleftrightarrow> (\<forall>i < length fs. \<exists>x. fs ! i = Some x \<and> 0 \<le> x \<and> x \<le> 1)"
  by (auto simp: factors_bounded_def list_all_length split: option.splits)

lemma bounded_state_factors:
  "bounded_state n st \<Longrightarrow> factors_bounded (snd st)"
  by (simp add: bounded_state_def factors_bounded_iff)

lemma normalize_pos:
  assumes "0 < sharpen_max_factor fs"
  shows "sharpen_normalize fs =
           map (\<lambda>f. Some (1 - (1 - f * (1 / sharpen_max_factor fs)) *
                               (1 - f * (1 / sharpen_max_factor fs)))) fs"
  using assms by (simp add: sharpen_normalize_def fdiv_def Let_def)

lemma remap_bounds:
  fixes f M :: real
  assumes "0 \<le> f" and "f \<le> M" and "0 < M"
  shows "0 \<le> 1 - (1 - f * (1 / M)) * (1 - f * (1 / M)) \<and>
         1 - (1 - f * (1 / M)) * (1 - f * (1 / M)) \<le> 1"
proof -
  let ?t = "f * (1 / M)"
  from assms have t0: "0 \<le> ?t" by simp
  from assms have t1: "?t \<le> 1" by (simp add: divide_le_eq)
  from t0 t1 have a: "0 \<le> 1 - ?t" and b: "1 - ?t \<le> 1" by simp_all
  from a b have "(1 - ?t) * (1 - ?t) \<le> 1 * 1" by (intro mult_mono) simp_all
  moreover from a have "0 \<le> (1 - ?t) * (1 - ?t)" by simp
  ultimately show ?thesis by simp
qed

lemma fadd_loop_bounded:
  assumes "\<forall>n \<in> set ns. \<exists>x. g n = Some x \<and> 0 \<le> x \<and> x \<le> 1"
  shows "\<exists>r. fold (\<lambda>n acc. fadd acc (g n)) ns (Some a) = Some r \<and> a \<le> r \<and>
             r \<le> a + real (length ns)"
  using assms
proof (induction ns arbitrary: a)
  case Nil
  then show ?case by simp
next
  case (Cons n ns)
  from Cons.prems obtain x where x: "g n = Some x" "0 \<le> x" "x \<le> 1" by auto
  from Cons.prems have "\<forall>m \<in> set ns. \<exists>x. g m = Some x \<and> 0 \<le> x \<and> x \<le> 1" by simp
  from Cons.IH [OF this, of "a + x"] obtain r where
    "fold (\<lambda>n acc. fadd acc (g n)) ns (Some (a + x)) = Some r" "a + x \<le> r"
    "r \<le> a + x + real (length ns)"
    by blast
  with x show ?case by simp
qed

lemma smooth_vertex_bounded:
  assumes "bounded_state n st" and "neighbors_in_range X n" and "i < n"
  shows "bounded_state n (sharpen_smooth_vertex X i st)"
proof -
  obtain ds fs where st: "st = (ds, fs)" by (cases st)
  from assms(1) st have len: "length fs = n"
    and bd: "\<forall>k < n. \<exists>x. fs ! k = Some x \<and> 0 \<le> x \<and> x \<le> 1"
    by (simp_all add: bounded_state_def)
  show ?thesis
  proof (cases "neighbors X i = []")
    case True
    with assms(1) st show ?thesis
      by (simp add: sharpen_smooth_vertex_def)
  next
    case False
    let ?ns = "neighbors X i"
    from bd assms(2,3) have "\<forall>j \<in> set ?ns. \<exists>x. fs ! j = Some x \<and> 0 \<le> x \<and> x \<le> 1"
      by (auto dest: neighbors_in_rangeD)
    from fadd_loop_bounded [OF this, of 0] obtain r where
      r: "fold (\<lambda>n acc. fadd acc (fs ! n)) ?ns (Some 0) = Some r" "0 \<le> r"
         "r \<le> real (length ?ns)"
      by auto
    from False have pos: "0 < real (length ?ns)" by simp
    from r pos have q: "0 \<le> r / real (length ?ns)" "r / real (length ?ns) \<le> 1"
      by (simp_all add: divide_le_eq)
    have upd: "sharpen_smooth_vertex X i st =
        (ds[i := mul_v3_v3fl (fold (\<lambda>n acc. add_v3_v3v3 acc (ds ! n)) ?ns (0, 0, 0))
                  (1 / real (length ?ns))],
         fs[i := Some (r / real (length ?ns))])"
      using False r(1) by (simp add: sharpen_smooth_vertex_def st Let_def)
    show ?thesis
      unfolding upd bounded_state_def
    proof (intro conjI allI impI)
      show "length (snd (ds[i := mul_v3_v3fl (fold (\<lambda>n acc. add_v3_v3v3 acc (ds ! n)) ?ns (0, 0, 0))
                  (1 / real (length ?ns))], fs[i := Some (r / real (length ?ns))])) = n"
        using len by simp
    next
      fix k assume k: "k < n"
      show "\<exists>x. snd (ds[i := mul_v3_v3fl (fold (\<lambda>n acc. add_v3_v3v3 acc (ds ! n)) ?ns (0, 0, 0))
                  (1 / real (length ?ns))], fs[i := Some (r / real (length ?ns))]) ! k = Some x \<and>
                0 \<le> x \<and> x \<le> 1"
      proof (cases "k = i")
        case True
        with q len assms(3) show ?thesis by simp
      next
        case False
        with bd k show ?thesis by simp
      qed
    qed
  qed
qed

lemma smooth_pass_bounded:
  assumes "bounded_state n st" and "neighbors_in_range X n"
  shows "bounded_state n (sharpen_smooth_pass X n st)"
  unfolding sharpen_smooth_pass_def
  by (rule fold_invariant_set [where P = "bounded_state n", OF assms(1)])
     (simp add: smooth_vertex_bounded assms(2))

lemma detail_lengths_bounds:
  assumes "f \<in> set (sharpen_detail_lengths X ss)"
  shows "0 \<le> f" and "f \<le> sharpen_max_factor (sharpen_detail_lengths X ss)"
proof -
  from assms show "0 \<le> f"
    by (auto simp: sharpen_detail_lengths_def len_v3_nonneg)
  from assms show "f \<le> sharpen_max_factor (sharpen_detail_lengths X ss)"
    by (rule sharpen_max_factor_props(2))
qed

lemma normalized_bounded:
  assumes "0 < sharpen_max_factor (sharpen_detail_lengths X ss)"
  shows "bounded_state (length (vert_co ss))
           (ds, sharpen_normalize (sharpen_detail_lengths X ss))"
proof -
  let ?fs = "sharpen_detail_lengths X ss"
  have len: "length ?fs = length (vert_co ss)"
    by (simp add: sharpen_detail_lengths_def)
  show ?thesis
    unfolding bounded_state_def normalize_pos [OF assms]
  proof (intro conjI allI impI)
    show "length (snd (ds, map (\<lambda>f. Some (1 - (1 - f * (1 / sharpen_max_factor ?fs)) *
                               (1 - f * (1 / sharpen_max_factor ?fs)))) ?fs)) = length (vert_co ss)"
      by (simp add: len)
  next
    fix i assume i: "i < length (vert_co ss)"
    then have m: "?fs ! i \<in> set ?fs" by (simp add: len)
    from remap_bounds [OF detail_lengths_bounds [OF m] assms] i len
    show "\<exists>x. snd (ds, map (\<lambda>f. Some (1 - (1 - f * (1 / sharpen_max_factor ?fs)) *
                               (1 - f * (1 / sharpen_max_factor ?fs)))) ?fs) ! i = Some x \<and>
              0 \<le> x \<and> x \<le> 1"
      by simp
  qed
qed

lemma normalized_has_one:
  assumes "0 < sharpen_max_factor (sharpen_detail_lengths X ss)"
  shows "Some 1 \<in> set (sharpen_normalize (sharpen_detail_lengths X ss))"
proof -
  let ?fs = "sharpen_detail_lengths X ss"
  let ?M = "sharpen_max_factor ?fs"
  from assms sharpen_max_factor_props(3) [of ?fs]
  have m: "?M \<in> set ?fs" by auto
  have "\<exists>f \<in> set ?fs. Some (1::real) = Some (1 - (1 - f * (1 / ?M)) * (1 - f * (1 / ?M)))"
  proof (rule bexI [OF _ m])
    from assms show "Some (1::real) = Some (1 - (1 - ?M * (1 / ?M)) * (1 - ?M * (1 / ?M)))"
      by simp
  qed
  then show ?thesis
    by (simp add: normalize_pos [OF assms] image_iff)
qed


text \<open>
  C10. The reciprocal of line 641 has no zero guard. When some vertex has a detail
  direction of non-zero magnitude, the maximum is positive, the reciprocal is the
  finite number 1 / max, and the initialization uses it: the buffer it leaves is the
  result of the smoothing passes on the factors 1 - (1 - magnitude * (1 / max))^2, with
  no smoothing pass it is exactly these factors, and every factor is a finite number
  (with smoothing passes, on a mesh whose neighbours are vertices of the mesh). When
  every magnitude is zero (and the neighbours of the vertices are vertices of the
  mesh), the maximum is 0, the reciprocal is not a finite number, and no factor of the
  buffer is a finite number, whatever the number of smoothing passes.
\<close>

theorem sharpen_init_division:
  "((\<exists>i < length (vert_co ss). len_v3 (detail_direction X ss i) \<noteq> 0) \<longrightarrow>
      0 < sharpen_max_factor (sharpen_detail_lengths X ss) \<and>
      fdiv 1 (sharpen_max_factor (sharpen_detail_lengths X ss)) =
        Some (1 / sharpen_max_factor (sharpen_detail_lengths X ss)) \<and>
      sharpen_factor (mesh_filter_sharpen_init X ss fc r d k) =
        snd ((sharpen_smooth_pass X (length (vert_co ss)) ^^ nat k)
               (map (detail_direction X ss) [0..<length (vert_co ss)],
                map (\<lambda>f. Some (1 - (1 - f * (1 / sharpen_max_factor (sharpen_detail_lengths X ss))) *
                                    (1 - f * (1 / sharpen_max_factor (sharpen_detail_lengths X ss)))))
                  (sharpen_detail_lengths X ss))) \<and>
      (k \<le> 0 \<longrightarrow>
         sharpen_factor (mesh_filter_sharpen_init X ss fc r d k) =
           map (\<lambda>i. Some (1 - (1 - len_v3 (detail_direction X ss i) *
                                     (1 / sharpen_max_factor (sharpen_detail_lengths X ss))) *
                                (1 - len_v3 (detail_direction X ss i) *
                                     (1 / sharpen_max_factor (sharpen_detail_lengths X ss)))))
             [0..<length (vert_co ss)]) \<and>
      (k \<le> 0 \<or> neighbors_in_range X (length (vert_co ss)) \<longrightarrow>
         length (sharpen_factor (mesh_filter_sharpen_init X ss fc r d k)) = length (vert_co ss) \<and>
         list_all (\<lambda>f. f \<noteq> None) (sharpen_factor (mesh_filter_sharpen_init X ss fc r d k)))) \<and>
   ((\<forall>i < length (vert_co ss). len_v3 (detail_direction X ss i) = 0) \<and>
    neighbors_in_range X (length (vert_co ss)) \<longrightarrow>
      sharpen_max_factor (sharpen_detail_lengths X ss) = 0 \<and>
      fdiv 1 (sharpen_max_factor (sharpen_detail_lengths X ss)) = None \<and>
      sharpen_factor (mesh_filter_sharpen_init X ss fc r d k) =
        replicate (length (vert_co ss)) None)"
proof (rule conjI)
  let ?n = "length (vert_co ss)"
  let ?fs = "sharpen_detail_lengths X ss"
  let ?M = "sharpen_max_factor ?fs"
  let ?ds = "map (detail_direction X ss) [0..<?n]"
  let ?st = "(?ds, sharpen_normalize ?fs)"
  let ?F = "sharpen_factor (mesh_filter_sharpen_init X ss fc r d k)"
  show "(\<exists>i < ?n. len_v3 (detail_direction X ss i) \<noteq> 0) \<longrightarrow>
      0 < ?M \<and> fdiv 1 ?M = Some (1 / ?M) \<and>
      ?F = snd ((sharpen_smooth_pass X ?n ^^ nat k)
               (?ds, map (\<lambda>f. Some (1 - (1 - f * (1 / ?M)) * (1 - f * (1 / ?M)))) ?fs)) \<and>
      (k \<le> 0 \<longrightarrow>
         ?F = map (\<lambda>i. Some (1 - (1 - len_v3 (detail_direction X ss i) * (1 / ?M)) *
                                (1 - len_v3 (detail_direction X ss i) * (1 / ?M))))
             [0..<?n]) \<and>
      (k \<le> 0 \<or> neighbors_in_range X ?n \<longrightarrow>
         length ?F = ?n \<and> list_all (\<lambda>f. f \<noteq> None) ?F)"
  proof
    assume "\<exists>i < ?n. len_v3 (detail_direction X ss i) \<noteq> 0"
    then have p: "0 < ?M"
      by (auto intro: max_factor_pos)
    from p have rc: "fdiv 1 ?M = Some (1 / ?M)"
      by (simp add: fdiv_def)
    have eq: "?F = snd ((sharpen_smooth_pass X ?n ^^ nat k)
               (?ds, map (\<lambda>f. Some (1 - (1 - f * (1 / ?M)) * (1 - f * (1 / ?M)))) ?fs))"
      unfolding sharpen_init_factor normalize_pos [OF p] ..
    have k0: "k \<le> 0 \<longrightarrow>
         ?F = map (\<lambda>i. Some (1 - (1 - len_v3 (detail_direction X ss i) * (1 / ?M)) *
                                (1 - len_v3 (detail_direction X ss i) * (1 / ?M))))
             [0..<?n]"
    proof
      assume "k \<le> 0"
      then have "?F = map (\<lambda>f. Some (1 - (1 - f * (1 / ?M)) * (1 - f * (1 / ?M)))) ?fs"
        by (simp add: eq)
      also have "\<dots> = map (\<lambda>i. Some (1 - (1 - len_v3 (detail_direction X ss i) * (1 / ?M)) *
                                (1 - len_v3 (detail_direction X ss i) * (1 / ?M)))) [0..<?n]"
        by (simp add: sharpen_detail_lengths_def comp_def)
      finally show "?F = map (\<lambda>i. Some (1 - (1 - len_v3 (detail_direction X ss i) * (1 / ?M)) *
                                (1 - len_v3 (detail_direction X ss i) * (1 / ?M)))) [0..<?n]" .
    qed
    have b0: "bounded_state ?n ?st" by (rule normalized_bounded [OF p])
    have fin: "k \<le> 0 \<or> neighbors_in_range X ?n \<longrightarrow>
         length ?F = ?n \<and> list_all (\<lambda>f. f \<noteq> None) ?F"
    proof
      assume c: "k \<le> 0 \<or> neighbors_in_range X ?n"
      have "bounded_state ?n ((sharpen_smooth_pass X ?n ^^ nat k) ?st)"
        using c
      proof
        assume "k \<le> 0"
        with b0 show ?thesis by simp
      next
        assume nb: "neighbors_in_range X ?n"
        show ?thesis
          by (rule funpow_invariant [where P = "bounded_state ?n", OF b0])
             (simp add: smooth_pass_bounded nb)
      qed
      then have "bounded_state ?n (ds', ?F)" for ds'
        by (simp add: sharpen_init_factor bounded_state_def)
      then have "length ?F = ?n" and "\<forall>i < ?n. \<exists>x. ?F ! i = Some x \<and> 0 \<le> x \<and> x \<le> 1"
        by (simp_all add: bounded_state_def)
      then show "length ?F = ?n \<and> list_all (\<lambda>f. f \<noteq> None) ?F"
        by (auto simp: list_all_length)
    qed
    from p rc eq k0 fin show "0 < ?M \<and> fdiv 1 ?M = Some (1 / ?M) \<and>
      ?F = snd ((sharpen_smooth_pass X ?n ^^ nat k)
               (?ds, map (\<lambda>f. Some (1 - (1 - f * (1 / ?M)) * (1 - f * (1 / ?M)))) ?fs)) \<and>
      (k \<le> 0 \<longrightarrow>
         ?F = map (\<lambda>i. Some (1 - (1 - len_v3 (detail_direction X ss i) * (1 / ?M)) *
                                (1 - len_v3 (detail_direction X ss i) * (1 / ?M))))
             [0..<?n]) \<and>
      (k \<le> 0 \<or> neighbors_in_range X ?n \<longrightarrow>
         length ?F = ?n \<and> list_all (\<lambda>f. f \<noteq> None) ?F)"
      by (intro conjI)
  qed
next
  show "(\<forall>i < length (vert_co ss). len_v3 (detail_direction X ss i) = 0) \<and>
    neighbors_in_range X (length (vert_co ss)) \<longrightarrow>
      sharpen_max_factor (sharpen_detail_lengths X ss) = 0 \<and>
      fdiv 1 (sharpen_max_factor (sharpen_detail_lengths X ss)) = None \<and>
      sharpen_factor (mesh_filter_sharpen_init X ss fc r d k) =
        replicate (length (vert_co ss)) None"
  proof (intro conjI impI)
    assume a: "(\<forall>i < length (vert_co ss). len_v3 (detail_direction X ss i) = 0) \<and>
      neighbors_in_range X (length (vert_co ss))"
    then have z: "sharpen_max_factor (sharpen_detail_lengths X ss) = 0"
      by (simp add: max_factor_zero)
    then show "sharpen_max_factor (sharpen_detail_lengths X ss) = 0" .
    from z show "fdiv 1 (sharpen_max_factor (sharpen_detail_lengths X ss)) = None"
      by (simp add: fdiv_def)
    let ?n = "length (vert_co ss)"
    let ?st = "(map (detail_direction X ss) [0..<?n], sharpen_normalize (sharpen_detail_lengths X ss))"
    have len: "length (sharpen_detail_lengths X ss) = ?n"
      by (simp add: sharpen_detail_lengths_def)
    have "all_nonfinite ?n ?st"
      by (simp add: all_nonfinite_iff normalize_zero_max [OF z] len)
    then have "all_nonfinite ?n ((sharpen_smooth_pass X ?n ^^ nat k) ?st)"
      by (rule funpow_invariant [where P = "all_nonfinite ?n"]) (simp add: smooth_pass_nonfinite a)
    then show "sharpen_factor (mesh_filter_sharpen_init X ss fc r d k) = replicate ?n None"
      by (simp add: sharpen_init_factor all_nonfinite_iff)
  qed
qed

text \<open>
  The three vertices on the line have magnitudes 1, 1/2 and 2: the reciprocal is 1/2
  and the factors are 3/4, 7/16 and 1, and they stay finite after a smoothing pass. The
  three coincident vertices have magnitude 0.
\<close>

theorem sharpen_init_division_witness:
  "len_v3 (detail_direction ref_collab path3_state 0) \<noteq> 0 \<and>
   sharpen_detail_lengths ref_collab path3_state = [1, 1 / 2, 2] \<and>
   0 < sharpen_max_factor (sharpen_detail_lengths ref_collab path3_state) \<and>
   fdiv 1 (sharpen_max_factor (sharpen_detail_lengths ref_collab path3_state)) = Some (1 / 2) \<and>
   sharpen_factor (mesh_filter_sharpen_init ref_collab path3_state filter_cache_zero 0.35 0 0) =
     [Some (3 / 4), Some (7 / 16), Some 1] \<and>
   neighbors_in_range ref_collab (length (vert_co path3_state)) \<and>
   list_all (\<lambda>f. f \<noteq> None)
     (sharpen_factor (mesh_filter_sharpen_init ref_collab path3_state filter_cache_zero 0.35 0 1)) \<and>
   sharpen_detail_lengths ref_collab path3_flat_state = [0, 0, 0] \<and>
   neighbors_in_range ref_collab (length (vert_co path3_flat_state)) \<and>
   fdiv 1 (sharpen_max_factor (sharpen_detail_lengths ref_collab path3_flat_state)) = None \<and>
   sharpen_factor (mesh_filter_sharpen_init ref_collab path3_flat_state filter_cache_zero 0.35 0 1) =
     [None, None, None]"
proof -
  have l: "(0::nat) < length (vert_co path3_state)"
    by (simp add: path3_state_def)
  have d: "len_v3 (detail_direction ref_collab path3_state 0) \<noteq> 0"
    by (simp add: sharpen_defs)
  from l d have ex: "\<exists>i < length (vert_co path3_state).
      len_v3 (detail_direction ref_collab path3_state i) \<noteq> 0"
    by blast
  have ls: "sharpen_detail_lengths ref_collab path3_state = [1, 1 / 2, 2]"
    by (simp add: sharpen_defs)
  have m: "sharpen_max_factor (sharpen_detail_lengths ref_collab path3_state) = 2"
    by (simp add: sharpen_defs)
  have n1: "neighbors_in_range ref_collab (length (vert_co path3_state))"
    by (simp add: sharpen_defs)
  have fl: "sharpen_detail_lengths ref_collab path3_flat_state = [0, 0, 0]"
    by (simp add: sharpen_defs)
  have n: "neighbors_in_range ref_collab (length (vert_co path3_flat_state))"
    by (simp add: sharpen_defs)
  have z: "\<forall>i < length (vert_co path3_flat_state).
      len_v3 (detail_direction ref_collab path3_flat_state i) = 0"
  proof (intro allI impI)
    fix i assume "i < length (vert_co path3_flat_state)"
    then have "i = 0 \<or> i = 1 \<or> i = 2"
      by (auto simp: path3_flat_state_def path3_state_def)
    then show "len_v3 (detail_direction ref_collab path3_flat_state i) = 0"
      by (auto simp: sharpen_defs)
  qed
  note t0 = sharpen_init_division [where ss = path3_state and X = ref_collab and fc = filter_cache_zero
      and r = "0.35" and d = 0 and k = 0,
      THEN conjunct1, THEN mp, OF ex]
  note t1 = sharpen_init_division [where ss = path3_state and X = ref_collab and fc = filter_cache_zero
      and r = "0.35" and d = 0 and k = 1,
      THEN conjunct1, THEN mp, OF ex]
  note t2 = sharpen_init_division [where ss = path3_flat_state and X = ref_collab and fc = filter_cache_zero
      and r = "0.35" and d = 0 and k = 1,
      THEN conjunct2, THEN mp, OF conjI [OF z n]]
  have len3: "length (vert_co path3_flat_state) = 3"
    by (simp add: path3_flat_state_def path3_state_def)
  from t1 m have p1: "0 < sharpen_max_factor (sharpen_detail_lengths ref_collab path3_state)"
    and p2: "fdiv 1 (sharpen_max_factor (sharpen_detail_lengths ref_collab path3_state)) =
               Some (1 / 2)"
    by simp_all
  from t0 have "sharpen_factor (mesh_filter_sharpen_init ref_collab path3_state filter_cache_zero 0.35 0 0) =
      snd ((sharpen_smooth_pass ref_collab (length (vert_co path3_state)) ^^ nat 0)
               (map (detail_direction ref_collab path3_state) [0..<length (vert_co path3_state)],
                map (\<lambda>f. Some (1 - (1 - f * (1 / sharpen_max_factor (sharpen_detail_lengths ref_collab path3_state))) *
                                    (1 - f * (1 / sharpen_max_factor (sharpen_detail_lengths ref_collab path3_state)))))
                  (sharpen_detail_lengths ref_collab path3_state)))"
    by blast
  then have f0: "sharpen_factor (mesh_filter_sharpen_init ref_collab path3_state filter_cache_zero 0.35 0 0) =
     [Some (3 / 4), Some (7 / 16), Some 1]"
    by (simp add: ls m [unfolded ls])
  from t1 n1 have f1: "list_all (\<lambda>f. f \<noteq> None)
     (sharpen_factor (mesh_filter_sharpen_init ref_collab path3_state filter_cache_zero 0.35 0 1))"
    by blast
  from t2 have f2:
    "fdiv 1 (sharpen_max_factor (sharpen_detail_lengths ref_collab path3_flat_state)) = None"
    by blast
  from t2 have "sharpen_factor
      (mesh_filter_sharpen_init ref_collab path3_flat_state filter_cache_zero 0.35 0 1) =
      replicate (length (vert_co path3_flat_state)) None"
    by blast
  then have f3: "sharpen_factor
      (mesh_filter_sharpen_init ref_collab path3_flat_state filter_cache_zero 0.35 0 1) =
      [None, None, None]"
    by (simp add: len3 numeral_3_eq_3)
  show ?thesis
    by (intro conjI d ls p1 p2 f0 n1 f1 fl n f2 f3)
qed


text \<open>
  C9, as amended. When some vertex has a detail direction of non-zero magnitude: with
  no smoothing pass the factor 1 occurs in the buffer and every factor lies between 0
  and 1, so the maximum is exactly 1; with smoothing passes (on a mesh whose neighbours
  are vertices of the mesh) every factor still lies between 0 and 1.
\<close>

theorem sharpen_factor_normalized:
  assumes "\<exists>i < length (vert_co ss). len_v3 (detail_direction X ss i) \<noteq> 0"
  shows "(k \<le> 0 \<longrightarrow> Some 1 \<in> set (sharpen_factor (mesh_filter_sharpen_init X ss fc r d k))) \<and>
         (k \<le> 0 \<or> neighbors_in_range X (length (vert_co ss)) \<longrightarrow>
            factors_bounded (sharpen_factor (mesh_filter_sharpen_init X ss fc r d k)))"
proof -
  let ?n = "length (vert_co ss)"
  let ?st = "(map (detail_direction X ss) [0..<?n], sharpen_normalize (sharpen_detail_lengths X ss))"
  from assms have p: "0 < sharpen_max_factor (sharpen_detail_lengths X ss)"
    by (auto intro: max_factor_pos)
  have b0: "bounded_state ?n ?st" by (rule normalized_bounded [OF p])
  have one: "k \<le> 0 \<longrightarrow> Some 1 \<in> set (sharpen_factor (mesh_filter_sharpen_init X ss fc r d k))"
    using normalized_has_one [OF p] by (simp add: sharpen_init_factor)
  have bnd: "k \<le> 0 \<or> neighbors_in_range X ?n \<longrightarrow>
            factors_bounded (sharpen_factor (mesh_filter_sharpen_init X ss fc r d k))"
  proof
    assume "k \<le> 0 \<or> neighbors_in_range X ?n"
    then show "factors_bounded (sharpen_factor (mesh_filter_sharpen_init X ss fc r d k))"
    proof
      assume "k \<le> 0"
      with bounded_state_factors [OF b0] show ?thesis
        by (simp add: sharpen_init_factor)
    next
      assume nb: "neighbors_in_range X ?n"
      have "bounded_state ?n ((sharpen_smooth_pass X ?n ^^ nat k) ?st)"
        by (rule funpow_invariant [where P = "bounded_state ?n", OF b0])
           (simp add: smooth_pass_bounded nb)
      from bounded_state_factors [OF this] show ?thesis
        by (simp add: sharpen_init_factor)
    qed
  qed
  from one bnd show ?thesis ..
qed

text \<open>The three vertices, with no smoothing pass and with one.\<close>

theorem sharpen_factor_normalized_witness:
  "(0::nat) < length (vert_co path3_state) \<and>
   len_v3 (detail_direction ref_collab path3_state 0) \<noteq> 0 \<and>
   neighbors_in_range ref_collab (length (vert_co path3_state)) \<and>
   Some 1 \<in> set (sharpen_factor
                  (mesh_filter_sharpen_init ref_collab path3_state filter_cache_zero 0.35 0 0)) \<and>
   factors_bounded (sharpen_factor
                  (mesh_filter_sharpen_init ref_collab path3_state filter_cache_zero 0.35 0 0)) \<and>
   factors_bounded (sharpen_factor
                  (mesh_filter_sharpen_init ref_collab path3_state filter_cache_zero 0.35 0 1))"
proof -
  have l: "(0::nat) < length (vert_co path3_state)"
    by (simp add: path3_state_def)
  have d: "len_v3 (detail_direction ref_collab path3_state 0) \<noteq> 0"
    by (simp add: sharpen_defs)
  have n: "neighbors_in_range ref_collab (length (vert_co path3_state))"
    by (simp add: sharpen_defs)
  from l d have ex: "\<exists>i < length (vert_co path3_state).
      len_v3 (detail_direction ref_collab path3_state i) \<noteq> 0"
    by blast
  from sharpen_factor_normalized [OF ex, where k = 0 and fc = filter_cache_zero and r = "0.35" and d = 0]
       sharpen_factor_normalized [OF ex, where k = 1 and fc = filter_cache_zero and r = "0.35" and d = 0] n l d
  show ?thesis by simp
qed


text \<open>
  C9, as stated, fails: after one smoothing pass on the three vertices the factors are
  7/16, 23/32 and 23/32, and the maximum is not 1.
\<close>

theorem sharpen_factor_smoothed_counterexample:
  "len_v3 (detail_direction ref_collab path3_state 0) \<noteq> 0 \<and>
   sharpen_factor (mesh_filter_sharpen_init ref_collab path3_state filter_cache_zero 0.35 0 1) =
     [Some (7 / 16), Some (23 / 32), Some (23 / 32)] \<and>
   Some 1 \<notin> set (sharpen_factor
                    (mesh_filter_sharpen_init ref_collab path3_state filter_cache_zero 0.35 0 1))"
  by (simp add: sharpen_defs)


end
